theory Spec2Isabelle
  imports Complex_Main "HOL-Library.Signed_Division"
begin

section \<open>Solar energy monitor: the sketch as state-passing functions\<close>

text \<open>
  The sketch \<^verbatim>\<open>SolarEnergyMonitoringSystem.ino\<close> keeps four global variables, reads two
  analog channels, drives one relay pin and serves one HTML page. Its functions are
  embedded as functions on a record \<open>world\<close> that holds the globals together with the
  part of the board the sketch talks to: the pin latches, the conversions the ADC will
  deliver, the answers of the WiFi driver, the pending page requests, and the list of
  effects performed so far (the trace).

  Numbers. The value of a C++ \<^verbatim>\<open>float\<close> is modelled by a \<open>real\<close>: every finite float is
  a real, and comparison of finite floats is comparison of reals. Float arithmetic rounds:
  the result of an operation is the exact result passed through the rounding \<open>float_of\<close>
  of the number format, which is a parameter of the model. Nothing is assumed about it in
  the definitions; the statements that depend on the size of the rounding error assume
  \<open>accurate\<close>, the relative error bound of binary32 round-to-nearest on the range of
  the normal floats. No operation of the sketch overflows for the counts a 12-bit
  converter delivers, and none yields a NaN, so infinities and NaN are left out.

  \<^verbatim>\<open>int\<close> and \<^verbatim>\<open>long\<close> are modelled by \<open>int\<close>; the only integer arithmetic is the sum
  of 20 converter counts and its division by 20, which cannot overflow for counts of a
  12-bit (or 16-bit) converter. C++ integer division truncates towards zero: \<open>sdiv\<close>.
\<close>

subsection \<open>Configuration constants\<close>

definition VOLTAGE_PIN :: int where
  "VOLTAGE_PIN = 34"

definition CURRENT_PIN :: int where
  "CURRENT_PIN = 35"

definition LOAD_RELAY_PIN :: int where
  "LOAD_RELAY_PIN = 27"

text \<open>
  The calibration values and the threshold are compile-time constants of the sketch.
  They are collected in a record that every function takes, so that a statement can
  talk about another value of one constant. The record also holds the rounding of the
  float format, \<open>float_of\<close>: the float nearest to a real number. \<open>sketch_config\<close> holds
  the values the source file declares: the literals 3.3 and 0.185 are rounded to floats
  where they are declared, 4.0 and 10.0 are floats as they stand.
\<close>

record config =
  float_of :: "real \<Rightarrow> real"
  VOLTAGE_SCALE_FACTOR :: real
  ADC_MAX_VOLTAGE :: real
  ADC_RESOLUTION :: int
  CURRENT_SENSITIVITY :: real
  ZERO_CURRENT_OFFSET :: int
  MIN_POWER_TO_CONNECT_W :: real

definition sketch_config :: "(real \<Rightarrow> real) \<Rightarrow> config" where
  "sketch_config fl =
     \<lparr> float_of = fl,
       VOLTAGE_SCALE_FACTOR = 4.0,
       ADC_MAX_VOLTAGE = fl 3.3,
       ADC_RESOLUTION = 4095,
       CURRENT_SENSITIVITY = fl 0.185,
       ZERO_CURRENT_OFFSET = 2048,
       MIN_POWER_TO_CONNECT_W = 10.0 \<rparr>"

text \<open>
  What rounding to the nearest float with a 24-bit significand (binary32) guarantees: zero
  is a float, and a number in the range of the normal floats, from \<open>1 / 2 ^ 126\<close> to
  \<open>2 ^ 127\<close> in magnitude, is rounded with an error of at most the fraction
  \<open>1 / 2 ^ 24\<close> of its magnitude. Nothing is said about numbers outside that range.
\<close>

definition accurate :: "(real \<Rightarrow> real) \<Rightarrow> bool" where
  "accurate fl =
     (fl 0 = 0 \<and>
      (\<forall>x. 1 / 2 ^ 126 \<le> \<bar>x\<bar> \<and> \<bar>x\<bar> \<le> 2 ^ 127 \<longrightarrow> \<bar>fl x - x\<bar> \<le> \<bar>x\<bar> / 2 ^ 24))"

text \<open>
  Rounding to the nearest number with a 24-bit significand, a tie going to the even
  significand: the rounding of binary32, without its limits on the exponent. A number
  \<open>x\<close> with \<open>2 ^ k \<le> \<bar>x\<bar> < 2 ^ (k + 1)\<close> is rounded to a multiple of \<open>2 ^ (k - 23)\<close>.
\<close>

definition pow2 :: "int \<Rightarrow> real" where
  "pow2 e = (if 0 \<le> e then 2 ^ nat e else 1 / 2 ^ nat (- e))"

definition round_half_even :: "real \<Rightarrow> int" where
  "round_half_even x =
     (let n = \<lfloor>x\<rfloor>; r = x - of_int n
      in if r < 1 / 2 then n else if 1 / 2 < r then n + 1 else if even n then n else n + 1)"

definition binary32 :: "real \<Rightarrow> real" where
  "binary32 x =
     (if x = 0 then 0
      else (let e = \<lfloor>log 2 \<bar>x\<bar>\<rfloor> - 23
            in real_of_int (round_half_even (x / pow2 e)) * pow2 e))"

subsection \<open>The board and the global variables\<close>

datatype level = LOW | HIGH

datatype request = GET_root | Unrouted

datatype event =
    SerialBegin nat
  | SerialPrint string
  | PinModeOutput int
  | DigitalWrite int level
  | DigitalRead int
  | AnalogRead int
  | Delay nat
  | WiFiBegin string string
  | WiFiStatus
  | ServerOn string
  | ServerBegin
  | ServerSend nat string string
  | ServerNotFound

text \<open>
  \<open>pinLevel\<close> is the output latch of each pin; \<open>digitalRead\<close> returns the level last
  written to the pin. \<open>adc pin k\<close> is the count that the \<open>k\<close>-th next call of
  \<^verbatim>\<open>analogRead(pin)\<close> returns, \<open>wifiConnected k\<close> says whether the \<open>k\<close>-th next
  call of \<^verbatim>\<open>WiFi.status()\<close> returns \<^verbatim>\<open>WL_CONNECTED\<close>, and \<open>inbox\<close> holds the
  client requests that wait for \<^verbatim>\<open>server.handleClient()\<close>.
\<close>

record world =
  currentVoltage :: real
  currentCurrent :: real
  currentPower :: real
  loadConnected :: bool
  pinLevel :: "int \<Rightarrow> level"
  adc :: "int \<Rightarrow> nat \<Rightarrow> int"
  wifiConnected :: "nat \<Rightarrow> bool"
  localIP :: string
  inbox :: "request list"
  trace :: "event list"

definition emit :: "event \<Rightarrow> world \<Rightarrow> world" where
  "emit e w = w\<lparr>trace := trace w @ [e]\<rparr>"

definition analogRead :: "int \<Rightarrow> world \<Rightarrow> int \<times> world" where
  "analogRead pin w =
     (adc w pin 0,
      emit (AnalogRead pin) (w\<lparr>adc := (adc w)(pin := (\<lambda>k. adc w pin (Suc k)))\<rparr>))"

definition digitalRead :: "int \<Rightarrow> world \<Rightarrow> level \<times> world" where
  "digitalRead pin w = (pinLevel w pin, emit (DigitalRead pin) w)"

definition digitalWrite :: "int \<Rightarrow> level \<Rightarrow> world \<Rightarrow> world" where
  "digitalWrite pin v w = emit (DigitalWrite pin v) (w\<lparr>pinLevel := (pinLevel w)(pin := v)\<rparr>)"

definition delay :: "nat \<Rightarrow> world \<Rightarrow> world" where
  "delay ms w = emit (Delay ms) w"

definition serial_print :: "string \<Rightarrow> world \<Rightarrow> world" where
  "serial_print s w = emit (SerialPrint s) w"

subsection \<open>Fixed-point formatting of numbers\<close>

text \<open>
  Modelled from the spec: the conversion \<^verbatim>\<open>%.Nf\<close> of the C library's \<^verbatim>\<open>printf\<close>, which
  the sketch reaches through \<^verbatim>\<open>Serial.printf\<close> and \<^verbatim>\<open>String::format\<close> (library code,
  not part of the repository). The spec calls it fixed-format numeric substitution: the
  value is rounded to \<open>N\<close> decimals (a tie goes to the even neighbour) and printed as
  sign, integer digits, point and exactly \<open>N\<close> fraction digits.
\<close>

fun decimal :: "nat \<Rightarrow> string" where
  "decimal n =
     (if n < 10 then [''0123456789'' ! n]
      else decimal (n div 10) @ [''0123456789'' ! (n mod 10)])"

definition zero_pad :: "nat \<Rightarrow> string \<Rightarrow> string" where
  "zero_pad d s = replicate (d - length s) (CHR ''0'') @ s"

definition fmt_fixed :: "nat \<Rightarrow> real \<Rightarrow> string" where
  "fmt_fixed d x =
     (let m = nat (round_half_even (\<bar>x\<bar> * 10 ^ d));
          ip = m div 10 ^ d;
          fp = m mod 10 ^ d
      in (if x < 0 then ''-'' else []) @ decimal ip @
         (if d = 0 then [] else ''.'' @ zero_pad d (decimal fp)))"

subsection \<open>Sensor reading functions\<close>

text \<open>
  In \<^verbatim>\<open>((float)adcValue / ADC_RESOLUTION) * ADC_MAX_VOLTAGE * VOLTAGE_SCALE_FACTOR\<close> both
  integers are converted to \<^verbatim>\<open>float\<close>, and the division and the two multiplications are
  float operations.
\<close>

definition readVoltage :: "config \<Rightarrow> world \<Rightarrow> real \<times> world" where
  "readVoltage cfg w =
     (let fl = float_of cfg;
          (adcValue, w1) = analogRead VOLTAGE_PIN w;
          voltage = fl (fl (fl (fl (real_of_int adcValue) / fl (real_of_int (ADC_RESOLUTION cfg)))
                          * ADC_MAX_VOLTAGE cfg) * VOLTAGE_SCALE_FACTOR cfg)
      in (voltage, w1))"

text \<open>
  The sampling loop of \<^verbatim>\<open>readCurrent\<close>:
  \<^verbatim>\<open>for (int i = 0; i < 20; i++) { totalAdc += analogRead(CURRENT_PIN); delay(1); }\<close>
\<close>

function sample_loop :: "nat \<Rightarrow> int \<Rightarrow> world \<Rightarrow> int \<times> world" where
  "sample_loop i totalAdc w =
     (if i < 20
      then (let (a, w1) = analogRead CURRENT_PIN w
            in sample_loop (i + 1) (totalAdc + a) (delay 1 w1))
      else (totalAdc, w))"
  by pat_completeness auto
termination
  by (relation "measure (\<lambda>(i, totalAdc, w). 20 - i)") auto

text \<open>
  \<^verbatim>\<open>abs\<close> is Arduino's: on a \<^verbatim>\<open>float\<close> argument it is the magnitude of the number,
  without rounding. \<^verbatim>\<open>ADC_MAX_VOLTAGE / 2.0\<close> divides by a \<^verbatim>\<open>double\<close> literal: the
  quotient is formed in double precision, where halving is exact, and becomes a
  \<^verbatim>\<open>float\<close> when it is stored in \<^verbatim>\<open>voltageOffset\<close>.
\<close>

definition readCurrent :: "config \<Rightarrow> world \<Rightarrow> real \<times> world" where
  "readCurrent cfg w =
     (let fl = float_of cfg;
          (totalAdc, w1) = sample_loop 0 0 w;
          avgAdc = totalAdc sdiv 20;
          sensorVoltage = fl (fl (fl (real_of_int avgAdc) / fl (real_of_int (ADC_RESOLUTION cfg)))
                                * ADC_MAX_VOLTAGE cfg);
          voltageOffset = fl (ADC_MAX_VOLTAGE cfg / 2.0);
          currentAmps = fl (fl (sensorVoltage - voltageOffset) / CURRENT_SENSITIVITY cfg)
      in (\<bar>currentAmps\<bar>, w1))"

subsection \<open>Load control\<close>

definition controlLoad :: "config \<Rightarrow> world \<Rightarrow> world" where
  "controlLoad cfg w =
     (if MIN_POWER_TO_CONNECT_W cfg \<le> currentPower w
      then (let (lvl, w1) = digitalRead LOAD_RELAY_PIN w
            in if lvl = LOW
               then serial_print
                      (''LOAD ON: Power '' @ fmt_fixed 2 (currentPower w) @ '' W (above ''
                         @ fmt_fixed 1 (MIN_POWER_TO_CONNECT_W cfg) @ '' W threshold).\<newline>'')
                      ((digitalWrite LOAD_RELAY_PIN HIGH w1)\<lparr>loadConnected := True\<rparr>)
               else w1)
      else (let (lvl, w1) = digitalRead LOAD_RELAY_PIN w
            in if lvl = HIGH
               then serial_print
                      (''LOAD OFF: Power '' @ fmt_fixed 2 (currentPower w) @ '' W (below ''
                         @ fmt_fixed 1 (MIN_POWER_TO_CONNECT_W cfg) @ '' W threshold).\<newline>'')
                      ((digitalWrite LOAD_RELAY_PIN LOW w1)\<lparr>loadConnected := False\<rparr>)
               else w1))"

subsection \<open>The status page\<close>

text \<open>
  The raw string literal of \<^verbatim>\<open>getPage\<close>, byte for byte, one line of the source per
  line (the literal starts with the line break after its opening parenthesis).
\<close>

definition html_template :: string where
  \<open>html_template =
     ''\<newline>'' @
     ''<!DOCTYPE html>\<newline>'' @
     ''<html>\<newline>'' @
     ''<head>\<newline>'' @
     ''<meta name="viewport" content="width=device-width, initial-scale=1">\<newline>'' @
     ''<meta http-equiv="refresh" content="5"> \<newline>'' @
     ''<title>Solar Monitor</title>\<newline>'' @
     ''<style>\<newline>'' @
     ''body { font-family: 'Segoe UI', Tahoma, Geneva, Verdana, sans-serif; background: #e0f2f1; margin: 0; padding: 20px;}\<newline>'' @
     ''.container { max-width: 600px; margin: auto; background: #ffffff; padding: 35px; border-radius: 12px; box-shadow: 0 6px 15px rgba(0,0,0,0.15); text-align: center; }\<newline>'' @
     ''h1 { color: #004d40; margin-bottom: 25px; }\<newline>'' @
     ''.metric-grid { display: grid; grid-template-columns: repeat(3, 1fr); gap: 20px; margin-bottom: 30px; }\<newline>'' @
     ''.metric-box { background: #f0f4c3; padding: 20px 10px; border-radius: 8px; box-shadow: 0 2px 5px rgba(0,0,0,0.05); }\<newline>'' @
     ''.metric-box h2 { font-size: 1.1em; color: #4caf50; margin: 0 0 5px 0; }\<newline>'' @
     ''.metric-box p { font-size: 2.0em; font-weight: bold; color: #1b5e20; margin: 0; }\<newline>'' @
     ''.status-box { padding: 15px; border-radius: 8px; font-weight: bold; font-size: 1.1em; }\<newline>'' @
     ''.status-box.on { background-color: #a5d6a7; color: #1b5e20; }\<newline>'' @
     ''.status-box.off { background-color: #ffccbc; color: #d84315; }\<newline>'' @
     ''.threshold { margin-top: 15px; font-size: 0.9em; color: #757575; }\<newline>'' @
     ''</style>\<newline>'' @
     ''</head>\<newline>'' @
     ''<body>\<newline>'' @
     ''<div class="container">\<newline>'' @
     ''<h1>'' @
     [CHR 0xC3, CHR 0xB0, CHR 0xC5, CHR 0xB8, CHR 0xC5, CHR 0x92, CHR 0xC5, CHR 0xBE] @
     '' Solar Energy Monitor</h1>\<newline>'' @
     ''\<newline>'' @
     ''<div class="metric-grid">\<newline>'' @
     ''    <div class="metric-box">\<newline>'' @
     ''        <h2>Voltage (V)</h2>\<newline>'' @
     ''        <p>%.2f</p>\<newline>'' @
     ''    </div>\<newline>'' @
     ''    <div class="metric-box">\<newline>'' @
     ''        <h2>Current (A)</h2>\<newline>'' @
     ''        <p>%.2f</p>\<newline>'' @
     ''    </div>\<newline>'' @
     ''    <div class="metric-box">\<newline>'' @
     ''        <h2>Power (W)</h2>\<newline>'' @
     ''        <p>%.2f</p>\<newline>'' @
     ''    </div>\<newline>'' @
     ''</div>\<newline>'' @
     ''\<newline>'' @
     ''<div class="status-box %s">\<newline>'' @
     ''    Load Status: %s\<newline>'' @
     ''</div>\<newline>'' @
     ''\<newline>'' @
     ''<div class="threshold">\<newline>'' @
     ''    Load Control Threshold: %.1f W\<newline>'' @
     ''</div>\<newline>'' @
     ''\<newline>'' @
     ''<p style="font-size: 0.8em; margin-top: 20px;">Data updates every 5 seconds.</p>\<newline>'' @
     ''\<newline>'' @
     ''</div>\<newline>'' @
     ''</body>\<newline>'' @
     ''</html>\<newline>''\<close>

text \<open>
  Modelled from the spec: \<^verbatim>\<open>String::format\<close> (library code, not part of the
  repository), which the spec describes as fixed-format numeric and string substitution
  into a static template. The template is scanned from left to right; \<^verbatim>\<open>%s\<close> takes
  the next argument, which must be a string, \<^verbatim>\<open>%.Nf\<close> takes the next argument, which
  must be a number, and \<^verbatim>\<open>%%\<close> stands for a percent sign. A directive of another form,
  or one whose argument is missing or of the other kind, has no defined result: \<open>None\<close>.
\<close>

datatype arg = ArgFloat real | ArgStr string

datatype fstate = Plain | Percent | Dot | Prec nat

definition is_digit :: "char \<Rightarrow> bool" where
  "is_digit c = (c \<in> set ''0123456789'')"

definition digit_value :: "char \<Rightarrow> nat" where
  "digit_value c = of_char c - 48"

fun format_from :: "fstate \<Rightarrow> string \<Rightarrow> arg list \<Rightarrow> string option" where
  "format_from Plain [] args = Some []"
| "format_from Plain (c # cs) args =
     (if c = CHR ''%'' then format_from Percent cs args
      else map_option ((#) c) (format_from Plain cs args))"
| "format_from Percent [] args = None"
| "format_from Percent (c # cs) args =
     (if c = CHR ''%'' then map_option ((#) c) (format_from Plain cs args)
      else if c = CHR ''s'' then
        (case args of
           ArgStr s # rest \<Rightarrow> map_option ((@) s) (format_from Plain cs rest)
         | _ \<Rightarrow> None)
      else if c = CHR ''.'' then format_from Dot cs args
      else None)"
| "format_from Dot [] args = None"
| "format_from Dot (c # cs) args =
     (if is_digit c then format_from (Prec (digit_value c)) cs args else None)"
| "format_from (Prec n) [] args = None"
| "format_from (Prec n) (c # cs) args =
     (if c = CHR ''f'' then
        (case args of
           ArgFloat x # rest \<Rightarrow> map_option ((@) (fmt_fixed n x)) (format_from Plain cs rest)
         | _ \<Rightarrow> None)
      else if is_digit c then format_from (Prec (10 * n + digit_value c)) cs args
      else None)"

definition String_format :: "string \<Rightarrow> arg list \<Rightarrow> string option" where
  "String_format fmt args = format_from Plain fmt args"

definition getPage :: "config \<Rightarrow> world \<Rightarrow> string option" where
  "getPage cfg w =
     (let html = html_template;
          status_class = (if loadConnected w then ''on'' else ''off'');
          status_text = (if loadConnected w then ''CONNECTED'' else ''DISCONNECTED (Low Power)'')
      in String_format html
           [ArgFloat (currentVoltage w),
            ArgFloat (currentCurrent w),
            ArgFloat (currentPower w),
            ArgStr status_class,
            ArgStr status_text,
            ArgFloat (MIN_POWER_TO_CONNECT_W cfg)])"

definition handleRoot :: "config \<Rightarrow> world \<Rightarrow> world option" where
  "handleRoot cfg w =
     (case getPage cfg w of
        None \<Rightarrow> None
      | Some page \<Rightarrow> Some (emit (ServerSend 200 ''text/html'' page) w))"

text \<open>
  Modelled from the spec: \<^verbatim>\<open>server.handleClient()\<close> (the HTTP serving collaborator,
  library code). It takes at most one pending request; the one route the sketch
  registers, \<^verbatim>\<open>GET /\<close>, is answered by \<open>handleRoot\<close>, and a request for anything else is
  answered by the library without calling into the sketch.
\<close>

definition handleClient :: "config \<Rightarrow> world \<Rightarrow> world option" where
  "handleClient cfg w =
     (case inbox w of
        [] \<Rightarrow> Some w
      | GET_root # rest \<Rightarrow> handleRoot cfg (w\<lparr>inbox := rest\<rparr>)
      | Unrouted # rest \<Rightarrow> Some (emit ServerNotFound (w\<lparr>inbox := rest\<rparr>)))"

subsection \<open>Startup and the main loop\<close>

definition ssid :: string where
  "ssid = ''YOUR_WIFI_SSID''"

definition password :: string where
  "password = ''YOUR_WIFI_PASSWORD''"

definition serial_println :: "string \<Rightarrow> world \<Rightarrow> world" where
  "serial_println s w = serial_print (s @ [CHR 0x0D, CHR 0x0A]) w"

text \<open>
  The values the C++ initialisers give the global variables before \<^verbatim>\<open>setup\<close> runs; the
  board (pins, converter, network) is whatever it is.
\<close>

definition power_on :: "world \<Rightarrow> world" where
  "power_on board =
     board\<lparr>currentVoltage := 0.0, currentCurrent := 0.0, currentPower := 0.0,
           loadConnected := False, trace := []\<rparr>"

definition wifi_status :: "world \<Rightarrow> bool \<times> world" where
  "wifi_status w =
     (wifiConnected w 0, emit WiFiStatus (w\<lparr>wifiConnected := (\<lambda>k. wifiConnected w (Suc k))\<rparr>))"

text \<open>
  \<^verbatim>\<open>while (WiFi.status() != WL_CONNECTED) { delay(500); Serial.print("."); }\<close>
  The loop has no bound: it returns only if the driver reports a connection.
\<close>

partial_function (option) wifi_wait :: "world \<Rightarrow> world option" where
  "wifi_wait w =
     (if fst (wifi_status w) then Some (snd (wifi_status w))
      else wifi_wait (serial_print ''.'' (delay 500 (snd (wifi_status w)))))"

definition setup_device :: "config \<Rightarrow> world \<Rightarrow> world option" where
  "setup_device cfg w =
     (let w1 = emit (SerialBegin 115200) w;
          w2 = emit (PinModeOutput LOAD_RELAY_PIN) w1;
          w3 = digitalWrite LOAD_RELAY_PIN LOW w2;
          w4 = emit (WiFiBegin ssid password) w3
      in case wifi_wait w4 of
           None \<Rightarrow> None
         | Some w5 \<Rightarrow>
             (let w6 = serial_println ''\<newline>WiFi connected.'' w5;
                  w7 = serial_print ''IP Address: '' w6;
                  w8 = serial_println (localIP w7) w7;
                  w9 = emit (ServerOn ''/'') w8;
                  w10 = emit ServerBegin w9
              in Some (serial_println ''HTTP Server started.'' w10)))"

text \<open>
  The body of \<^verbatim>\<open>loop\<close> in its four parts: the statements under the comments
  \<^verbatim>\<open>1. Read Sensors\<close> and \<^verbatim>\<open>2. Calculate Power\<close> (\<open>acquire\<close>), the call of
  \<open>controlLoad\<close>, the status line on the serial stream (\<open>report\<close>), and the delay.
\<close>

definition acquire :: "config \<Rightarrow> world \<Rightarrow> world" where
  "acquire cfg w =
     (let (v, w1) = readVoltage cfg w;
          w2 = w1\<lparr>currentVoltage := v\<rparr>;
          (c, w3) = readCurrent cfg w2;
          w4 = w3\<lparr>currentCurrent := c\<rparr>
      in w4\<lparr>currentPower := float_of cfg (currentVoltage w4 * currentCurrent w4)\<rparr>)"

definition report :: "world \<Rightarrow> world" where
  "report w =
     serial_print
       (''V: '' @ fmt_fixed 2 (currentVoltage w) @ '' V | I: '' @ fmt_fixed 2 (currentCurrent w)
          @ '' A | P: '' @ fmt_fixed 2 (currentPower w) @ '' W | Load: ''
          @ (if loadConnected w then ''ON'' else ''OFF'') @ ''\<newline>'')
       w"

definition loop :: "config \<Rightarrow> world \<Rightarrow> world option" where
  "loop cfg w =
     (case handleClient cfg w of
        None \<Rightarrow> None
      | Some w1 \<Rightarrow> Some (delay 5000 (report (controlLoad cfg (acquire cfg w1)))))"

text \<open>
  The states the running sketch can be in between two statements of \<^verbatim>\<open>loop\<close>'s caller:
  after \<^verbatim>\<open>setup\<close> has returned, after each further pass through \<^verbatim>\<open>loop\<close>, and after
  a client request has arrived in between.
\<close>

inductive reachable :: "config \<Rightarrow> world \<Rightarrow> bool" for cfg :: config where
  started: "setup_device cfg (power_on board) = Some w \<Longrightarrow> reachable cfg w"
| tick: "reachable cfg w \<Longrightarrow> loop cfg w = Some w' \<Longrightarrow> reachable cfg w'"
| arrival: "reachable cfg w \<Longrightarrow> reachable cfg (w\<lparr>inbox := inbox w @ [r]\<rparr>)"

subsection \<open>Auxiliary definitions for the statements\<close>

text \<open>
  The world after \<open>n\<close> passes through the sampling loop: \<open>n\<close> conversions of the
  current channel are used up, and each pass has left its two effects in the trace.
\<close>

definition after_samples :: "nat \<Rightarrow> world \<Rightarrow> world" where
  "after_samples n w =
     w\<lparr>adc := (adc w)(CURRENT_PIN := (\<lambda>k. adc w CURRENT_PIN (k + n))),
       trace := trace w @ concat (replicate n [AnalogRead CURRENT_PIN, Delay 1])\<rparr>"

text \<open>
  A board for concrete runs: every pin low, every conversion 2048 counts, the network
  connected at the first poll, no request pending.
\<close>

definition bench_board :: world where
  "bench_board =
     \<lparr> currentVoltage = 0, currentCurrent = 0, currentPower = 0, loadConnected = False,
       pinLevel = (\<lambda>pin. LOW), adc = (\<lambda>pin k. 2048), wifiConnected = (\<lambda>k. True),
       localIP = ''192.168.4.1'', inbox = [], trace = [] \<rparr>"

text \<open>
  A second board for concrete runs: the relay pin is high at power-up, the network is
  connected only at the third poll, the current channel converts to 0 counts twenty times
  (a large current) and to 2048 counts afterwards, the voltage channel always to 2048.
\<close>

definition field_board :: world where
  "field_board =
     \<lparr> currentVoltage = 0, currentCurrent = 0, currentPower = 0, loadConnected = False,
       pinLevel = (\<lambda>pin. HIGH),
       adc = (\<lambda>pin k. if pin = CURRENT_PIN \<and> k < 20 then 0 else 2048),
       wifiConnected = (\<lambda>k. 2 \<le> k),
       localIP = ''192.168.4.1'', inbox = [], trace = [] \<rparr>"

text \<open>
  The fixed text of the template between its six directives, in order.
\<close>

definition page_head :: string where
  \<open>page_head =
     ''\<newline>'' @
     ''<!DOCTYPE html>\<newline>'' @
     ''<html>\<newline>'' @
     ''<head>\<newline>'' @
     ''<meta name="viewport" content="width=device-width, initial-scale=1">\<newline>'' @
     ''<meta http-equiv="refresh" content="5"> \<newline>'' @
     ''<title>Solar Monitor</title>\<newline>'' @
     ''<style>\<newline>'' @
     ''body { font-family: 'Segoe UI', Tahoma, Geneva, Verdana, sans-serif; background: #e0f2f1; margin: 0; padding: 20px;}\<newline>'' @
     ''.container { max-width: 600px; margin: auto; background: #ffffff; padding: 35px; border-radius: 12px; box-shadow: 0 6px 15px rgba(0,0,0,0.15); text-align: center; }\<newline>'' @
     ''h1 { color: #004d40; margin-bottom: 25px; }\<newline>'' @
     ''.metric-grid { display: grid; grid-template-columns: repeat(3, 1fr); gap: 20px; margin-bottom: 30px; }\<newline>'' @
     ''.metric-box { background: #f0f4c3; padding: 20px 10px; border-radius: 8px; box-shadow: 0 2px 5px rgba(0,0,0,0.05); }\<newline>'' @
     ''.metric-box h2 { font-size: 1.1em; color: #4caf50; margin: 0 0 5px 0; }\<newline>'' @
     ''.metric-box p { font-size: 2.0em; font-weight: bold; color: #1b5e20; margin: 0; }\<newline>'' @
     ''.status-box { padding: 15px; border-radius: 8px; font-weight: bold; font-size: 1.1em; }\<newline>'' @
     ''.status-box.on { background-color: #a5d6a7; color: #1b5e20; }\<newline>'' @
     ''.status-box.off { background-color: #ffccbc; color: #d84315; }\<newline>'' @
     ''.threshold { margin-top: 15px; font-size: 0.9em; color: #757575; }\<newline>'' @
     ''</style>\<newline>'' @
     ''</head>\<newline>'' @
     ''<body>\<newline>'' @
     ''<div class="container">\<newline>'' @
     ''<h1>'' @
     [CHR 0xC3, CHR 0xB0, CHR 0xC5, CHR 0xB8, CHR 0xC5, CHR 0x92, CHR 0xC5, CHR 0xBE] @
     '' Solar Energy Monitor</h1>\<newline>'' @
     ''\<newline>'' @
     ''<div class="metric-grid">\<newline>'' @
     ''    <div class="metric-box">\<newline>'' @
     ''        <h2>Voltage (V)</h2>\<newline>'' @
     ''        <p>''\<close>

definition page_after_voltage :: string where
  \<open>page_after_voltage =
     ''</p>\<newline>'' @
     ''    </div>\<newline>'' @
     ''    <div class="metric-box">\<newline>'' @
     ''        <h2>Current (A)</h2>\<newline>'' @
     ''        <p>''\<close>

definition page_after_current :: string where
  \<open>page_after_current =
     ''</p>\<newline>'' @
     ''    </div>\<newline>'' @
     ''    <div class="metric-box">\<newline>'' @
     ''        <h2>Power (W)</h2>\<newline>'' @
     ''        <p>''\<close>

definition page_after_power :: string where
  \<open>page_after_power =
     ''</p>\<newline>'' @
     ''    </div>\<newline>'' @
     ''</div>\<newline>'' @
     ''\<newline>'' @
     ''<div class="status-box ''\<close>

definition page_after_class :: string where
  \<open>page_after_class =
     ''">\<newline>'' @
     ''    Load Status: ''\<close>

definition page_after_status :: string where
  \<open>page_after_status =
     ''\<newline>'' @
     ''</div>\<newline>'' @
     ''\<newline>'' @
     ''<div class="threshold">\<newline>'' @
     ''    Load Control Threshold: ''\<close>

definition page_tail :: string where
  \<open>page_tail =
     '' W\<newline>'' @
     ''</div>\<newline>'' @
     ''\<newline>'' @
     ''<p style="font-size: 0.8em; margin-top: 20px;">Data updates every 5 seconds.</p>\<newline>'' @
     ''\<newline>'' @
     ''</div>\<newline>'' @
     ''</body>\<newline>'' @
     ''</html>\<newline>''\<close>

text \<open>
  The page for a world: the fixed text with the three readings, the load status (as a
  style class and as a caption) and the threshold put in.
\<close>

definition status_page :: "config \<Rightarrow> world \<Rightarrow> string" where
  "status_page cfg w =
     page_head @ fmt_fixed 2 (currentVoltage w) @ page_after_voltage
       @ fmt_fixed 2 (currentCurrent w) @ page_after_current
       @ fmt_fixed 2 (currentPower w) @ page_after_power
       @ (if loadConnected w then ''on'' else ''off'') @ page_after_class
       @ (if loadConnected w then ''CONNECTED'' else ''DISCONNECTED (Low Power)'')
       @ page_after_status
       @ fmt_fixed 1 (MIN_POWER_TO_CONNECT_W cfg) @ page_tail"

text \<open>
  The effects of one call of \<open>controlLoad\<close>: the relay pin is read, and written (with a
  line on the serial stream) only if the decision changes it.
\<close>

definition decision_events :: "config \<Rightarrow> world \<Rightarrow> event list" where
  "decision_events cfg w =
     DigitalRead LOAD_RELAY_PIN #
     (if MIN_POWER_TO_CONNECT_W cfg \<le> currentPower w
      then (if pinLevel w LOAD_RELAY_PIN = LOW
            then [DigitalWrite LOAD_RELAY_PIN HIGH,
                  SerialPrint (''LOAD ON: Power '' @ fmt_fixed 2 (currentPower w) @ '' W (above ''
                     @ fmt_fixed 1 (MIN_POWER_TO_CONNECT_W cfg) @ '' W threshold).\<newline>'')]
            else [])
      else (if pinLevel w LOAD_RELAY_PIN = HIGH
            then [DigitalWrite LOAD_RELAY_PIN LOW,
                  SerialPrint (''LOAD OFF: Power '' @ fmt_fixed 2 (currentPower w) @ '' W (below ''
                     @ fmt_fixed 1 (MIN_POWER_TO_CONNECT_W cfg) @ '' W threshold).\<newline>'')]
            else []))"

text \<open>
  The effects of one call of \<open>handleClient\<close>: nothing without a pending request, the
  page for \<^verbatim>\<open>GET /\<close>, the library's own answer for anything else.
\<close>

definition client_events :: "config \<Rightarrow> world \<Rightarrow> event list" where
  "client_events cfg w =
     (case inbox w of
        [] \<Rightarrow> []
      | GET_root # rest \<Rightarrow> [ServerSend 200 ''text/html'' (status_page cfg w)]
      | Unrouted # rest \<Rightarrow> [ServerNotFound])"

text \<open>
  The status line that \<open>report\<close> prints.
\<close>

definition status_line :: "world \<Rightarrow> string" where
  "status_line w =
     ''V: '' @ fmt_fixed 2 (currentVoltage w) @ '' V | I: '' @ fmt_fixed 2 (currentCurrent w)
       @ '' A | P: '' @ fmt_fixed 2 (currentPower w) @ '' W | Load: ''
       @ (if loadConnected w then ''ON'' else ''OFF'') @ ''\<newline>''"

text \<open>
  The load decision applied to a sequence of power values, one after the other; the result
  lists the level of the relay pin and the flag \<open>loadConnected\<close> after each decision.
\<close>

fun relay_run :: "config \<Rightarrow> world \<Rightarrow> real list \<Rightarrow> (level \<times> bool) list" where
  "relay_run cfg w [] = []"
| "relay_run cfg w (p # ps) =
     (let w' = controlLoad cfg (w\<lparr>currentPower := p\<rparr>)
      in (pinLevel w' LOAD_RELAY_PIN, loadConnected w') # relay_run cfg w' ps)"

text \<open>
  The effects of one pass through \<^verbatim>\<open>loop\<close>: what the pass appends to the trace.
\<close>

definition pass_events :: "config \<Rightarrow> world \<Rightarrow> event list" where
  "pass_events cfg w =
     (case loop cfg w of
        None \<Rightarrow> []
      | Some w' \<Rightarrow> drop (length (trace w)) (trace w'))"

text \<open>
  The steps of a pass as they show in the trace: a conversion (acquisition), the reading of
  the relay pin that opens \<open>controlLoad\<close> (decision), the sending of a page (presentation),
  the status line \<^verbatim>\<open>V: ...\<close> on the serial stream (report), the delay of 5000 ms (sleep).
\<close>

definition is_acquisition :: "event \<Rightarrow> bool" where
  "is_acquisition e = (case e of AnalogRead pin \<Rightarrow> True | _ \<Rightarrow> False)"

definition is_decision :: "event \<Rightarrow> bool" where
  "is_decision e = (e = DigitalRead LOAD_RELAY_PIN)"

definition is_presentation :: "event \<Rightarrow> bool" where
  "is_presentation e = (case e of ServerSend code ctype body \<Rightarrow> True | _ \<Rightarrow> False)"

definition is_sleep :: "event \<Rightarrow> bool" where
  "is_sleep e = (e = Delay 5000)"

definition is_report :: "event \<Rightarrow> bool" where
  "is_report e = (case e of SerialPrint s \<Rightarrow> take 3 s = ''V: '' | _ \<Rightarrow> False)"

text \<open>
  \<open>in_order ps es\<close>: the trace \<open>es\<close> has events satisfying the predicates \<open>ps\<close>, one
  for each and in this order (the earliest match is taken each time).
\<close>

fun in_order :: "(event \<Rightarrow> bool) list \<Rightarrow> event list \<Rightarrow> bool" where
  "in_order [] es = True"
| "in_order (p # ps) [] = False"
| "in_order (p # ps) (e # es) = (if p e then in_order ps es else in_order (p # ps) es)"

section \<open>Properties\<close>

subsection \<open>The sampling loop and the two conversions in closed form\<close>

declare sample_loop.simps [simp del]

lemma after_samples_0: "after_samples 0 w = w"
  by (simp add: after_samples_def)

lemma after_samples_step:
  "after_samples n (delay 1 (snd (analogRead CURRENT_PIN w))) = after_samples (Suc n) w"
  by (simp add: after_samples_def delay_def analogRead_def emit_def fun_eq_iff)

lemma sample_loop_closed:
  "i \<le> 20 \<Longrightarrow>
   sample_loop i totalAdc w =
     (totalAdc + (\<Sum>k<20 - i. adc w CURRENT_PIN k), after_samples (20 - i) w)"
proof (induction i totalAdc w rule: sample_loop.induct)
  case (1 i totalAdc w)
  show ?case
  proof (cases "i < 20")
    case False
    with 1(2) have i: "20 - i = 0" by simp
    have "sample_loop i totalAdc w = (totalAdc, w)"
      using False by (simp add: sample_loop.simps [of i])
    then show ?thesis by (simp add: i after_samples_0)
  next
    case True
    let ?w' = "delay 1 (snd (analogRead CURRENT_PIN w))"
    have step: "sample_loop i totalAdc w = sample_loop (i + 1) (totalAdc + adc w CURRENT_PIN 0) ?w'"
      using True by (simp add: sample_loop.simps [of i] analogRead_def)
    have ih: "sample_loop (i + 1) (totalAdc + adc w CURRENT_PIN 0) ?w' =
        (totalAdc + adc w CURRENT_PIN 0 + (\<Sum>k<20 - (i + 1). adc ?w' CURRENT_PIN k),
         after_samples (20 - (i + 1)) ?w')"
      using True by (intro 1(1) [OF True]) (simp_all add: analogRead_def)
    have shift: "adc ?w' CURRENT_PIN k = adc w CURRENT_PIN (Suc k)" for k
      by (simp add: delay_def analogRead_def emit_def)
    have suc: "20 - i = Suc (20 - (i + 1))" using True by simp
    have sum_eq: "(\<Sum>k<20 - i. adc w CURRENT_PIN k) =
          adc w CURRENT_PIN 0 + (\<Sum>k<20 - (i + 1). adc w CURRENT_PIN (Suc k))"
      unfolding suc by (rule sum.lessThan_Suc_shift)
    have sum': "(\<Sum>k<20 - (i + 1). adc ?w' CURRENT_PIN k) =
          (\<Sum>k<20 - (i + 1). adc w CURRENT_PIN (Suc k))"
      by (simp only: shift)
    have w': "after_samples (20 - (i + 1)) ?w' = after_samples (20 - i) w"
      by (simp only: after_samples_step suc [symmetric])
    show ?thesis
      unfolding step ih sum' w' sum_eq by (simp only: add.assoc)
  qed
qed

lemma readVoltage_closed:
  "readVoltage cfg w =
     (float_of cfg (float_of cfg
        (float_of cfg (float_of cfg (real_of_int (adc w VOLTAGE_PIN 0))
                         / float_of cfg (real_of_int (ADC_RESOLUTION cfg)))
           * ADC_MAX_VOLTAGE cfg) * VOLTAGE_SCALE_FACTOR cfg),
      emit (AnalogRead VOLTAGE_PIN)
        (w\<lparr>adc := (adc w)(VOLTAGE_PIN := (\<lambda>k. adc w VOLTAGE_PIN (Suc k)))\<rparr>))"
  by (simp add: readVoltage_def analogRead_def Let_def)

lemma readCurrent_closed:
  "readCurrent cfg w =
     (\<bar>float_of cfg
         (float_of cfg
            (float_of cfg
               (float_of cfg
                  (float_of cfg (real_of_int ((\<Sum>k<20. adc w CURRENT_PIN k) sdiv 20))
                     / float_of cfg (real_of_int (ADC_RESOLUTION cfg)))
                * ADC_MAX_VOLTAGE cfg)
             - float_of cfg (ADC_MAX_VOLTAGE cfg / 2))
          / CURRENT_SENSITIVITY cfg)\<bar>,
      after_samples 20 w)"
  by (simp add: readCurrent_def sample_loop_closed Let_def)

subsection \<open>Rounding errors\<close>

lemma pow2_powr: "pow2 e = 2 powr real_of_int e"
  by (simp add: pow2_def powr_realpow [symmetric] powr_minus divide_simps)

lemma round_half_even_error: "\<bar>real_of_int (round_half_even y) - y\<bar> \<le> 1 / 2"
proof -
  have "real_of_int \<lfloor>y\<rfloor> \<le> y" "y < real_of_int \<lfloor>y\<rfloor> + 1" by linarith+
  then show ?thesis
    by (auto simp: round_half_even_def Let_def)
qed

lemma binary32_error:
  assumes "x \<noteq> 0"
  shows "\<bar>binary32 x - x\<bar> \<le> \<bar>x\<bar> / 2 ^ 24"
proof -
  define k where "k = \<lfloor>log 2 \<bar>x\<bar>\<rfloor>"
  define p where "p = pow2 (k - 23)"
  have p: "0 < p" by (simp add: p_def pow2_powr)
  have b: "binary32 x = real_of_int (round_half_even (x / p)) * p"
    using assms by (simp add: binary32_def k_def p_def Let_def)
  have "\<bar>real_of_int (round_half_even (x / p)) - x / p\<bar> \<le> 1 / 2"
    by (rule round_half_even_error)
  then have "\<bar>real_of_int (round_half_even (x / p)) - x / p\<bar> * p \<le> 1 / 2 * p"
    using p by (intro mult_right_mono) simp_all
  moreover have "\<bar>real_of_int (round_half_even (x / p)) - x / p\<bar> * p
      = \<bar>real_of_int (round_half_even (x / p)) * p - x\<bar>"
  proof -
    have "\<bar>real_of_int (round_half_even (x / p)) - x / p\<bar> * p
        = \<bar>(real_of_int (round_half_even (x / p)) - x / p) * p\<bar>"
      using p by (simp add: abs_mult)
    also have "(real_of_int (round_half_even (x / p)) - x / p) * p
        = real_of_int (round_half_even (x / p)) * p - x"
      using p by (simp add: field_simps)
    finally show ?thesis .
  qed
  ultimately have e: "\<bar>binary32 x - x\<bar> \<le> p / 2" by (simp add: b)
  have "real_of_int k \<le> log 2 \<bar>x\<bar>" by (simp add: k_def)
  then have "2 powr real_of_int k \<le> 2 powr log 2 \<bar>x\<bar>" by simp
  then have kx: "2 powr real_of_int k \<le> \<bar>x\<bar>" using assms by simp
  have "p = 2 powr real_of_int k / 2 ^ 23"
    by (simp add: p_def pow2_powr powr_diff powr_realpow [symmetric])
  then have "p / 2 = 2 powr real_of_int k / 2 ^ 24" by simp
  also have "\<dots> \<le> \<bar>x\<bar> / 2 ^ 24" using kx by (intro divide_right_mono) simp_all
  finally show ?thesis using e by linarith
qed

lemma accurate_binary32: "accurate binary32"
  unfolding accurate_def
proof (intro conjI allI impI)
  show "binary32 0 = 0" by (simp add: binary32_def)
next
  fix x :: real
  assume "1 / 2 ^ 126 \<le> \<bar>x\<bar> \<and> \<bar>x\<bar> \<le> 2 ^ 127"
  then have "x \<noteq> 0" by auto
  then show "\<bar>binary32 x - x\<bar> \<le> \<bar>x\<bar> / 2 ^ 24" by (rule binary32_error)
qed

lemma binary32_value:
  assumes "pow2 k \<le> \<bar>x\<bar>" and "\<bar>x\<bar> < pow2 (k + 1)"
    and "real_of_int (round_half_even (x / pow2 (k - 23))) * pow2 (k - 23) = y"
  shows "binary32 x = y"
proof -
  have "0 < pow2 k" by (simp add: pow2_powr)
  with assms(1) have x: "0 < \<bar>x\<bar>" by linarith
  have "real_of_int k \<le> log 2 \<bar>x\<bar>"
    using assms(1) x by (simp add: pow2_powr le_log_iff)
  moreover have "log 2 \<bar>x\<bar> < real_of_int k + 1"
    using assms(2) x by (simp add: pow2_powr log_less_iff)
  ultimately have "\<lfloor>log 2 \<bar>x\<bar>\<rfloor> = k" by linarith
  with x assms(3) show ?thesis
    by (auto simp: binary32_def Let_def)
qed

lemma binary32_constants:
  "binary32 (33 / 10) = 13841203 / 4194304"
  "binary32 (185 / 1000) = 3103785 / 16777216"
  "binary32 2048 = 2048"
  "binary32 4095 = 4095"
     apply (rule binary32_value [of 1]; simp add: pow2_def round_half_even_def Let_def)
    apply (rule binary32_value [of "-3"]; simp add: pow2_def round_half_even_def Let_def)
   apply (rule binary32_value [of 11]; simp add: pow2_def round_half_even_def Let_def)
  apply (rule binary32_value [of 11]; simp add: pow2_def round_half_even_def Let_def)
  done

lemma binary32_volts_2048:
  "binary32 (2048 / 4095) = 8390657 / 16777216"
  "binary32 (8390657 / 16777216 * (13841203 / 4194304)) = 1730573 / 1048576"
  "binary32 (1730573 / 1048576 * 4) = 1730573 / 262144"
  "binary32 (1730573 / 262144 * 2) = 1730573 / 131072"
     apply (rule binary32_value [of "-1"]; simp add: pow2_def round_half_even_def Let_def)
    apply (rule binary32_value [of 0]; simp add: pow2_def round_half_even_def Let_def)
   apply (rule binary32_value [of 2]; simp add: pow2_def round_half_even_def Let_def)
  apply (rule binary32_value [of 3]; simp add: pow2_def round_half_even_def Let_def)
  done

lemma binary32_amps_2048:
  "binary32 (13841203 / 4194304 / 2) = 13841203 / 8388608"
  "binary32 (1730573 / 1048576 - 13841203 / 8388608) = 3381 / 8388608"
  "binary32 (3381 / 8388608 / (3103785 / 16777216)) = 4678573 / 2147483648"
    apply (rule binary32_value [of 0]; simp add: pow2_def round_half_even_def Let_def)
   apply (rule binary32_value [of "-12"]; simp add: pow2_def round_half_even_def Let_def)
  apply (rule binary32_value [of "-9"]; simp add: pow2_def round_half_even_def Let_def)
  done

lemma accurate_0: "accurate fl \<Longrightarrow> fl 0 = 0"
  by (simp add: accurate_def)

lemma rounded_normal:
  assumes "accurate fl" and "1 / 2 ^ 126 \<le> x" and "x \<le> 2 ^ 127"
  shows "x * (1 - 1 / 2 ^ 24) \<le> fl x" and "fl x \<le> x * (1 + 1 / 2 ^ 24)"
proof -
  define d where "d = x / 2 ^ 24"
  have "(0 :: real) < 1 / 2 ^ 126" by simp
  with assms(2) have x: "0 < x" by linarith
  then have "1 / 2 ^ 126 \<le> \<bar>x\<bar> \<and> \<bar>x\<bar> \<le> 2 ^ 127"
    using assms(2,3) by simp
  with assms(1) have "\<bar>fl x - x\<bar> \<le> \<bar>x\<bar> / 2 ^ 24"
    unfolding accurate_def by blast
  with x have e: "\<bar>fl x - x\<bar> \<le> d" by (simp add: d_def)
  have eq: "x * (1 - 1 / 2 ^ 24) = x - d" "x * (1 + 1 / 2 ^ 24) = x + d"
    by (simp_all add: d_def algebra_simps)
  from e have "x - d \<le> fl x" and "fl x \<le> x + d"
    by linarith+
  then show "x * (1 - 1 / 2 ^ 24) \<le> fl x" and "fl x \<le> x * (1 + 1 / 2 ^ 24)"
    by (simp_all only: eq)
qed

lemma rounded_between:
  assumes "accurate fl" and "1 / 2 ^ 126 \<le> lo" and "lo \<le> x" and "x \<le> hi" and "hi \<le> 2 ^ 127"
    and "lo' \<le> lo * (1 - 1 / 2 ^ 24)" and "hi * (1 + 1 / 2 ^ 24) \<le> hi'"
  shows "lo' \<le> fl x \<and> fl x \<le> hi'"
proof -
  have x: "1 / 2 ^ 126 \<le> x" "x \<le> 2 ^ 127" using assms(2-5) by linarith+
  have "lo * (1 - 1 / 2 ^ 24) \<le> x * (1 - 1 / 2 ^ 24)"
    using assms(3) by (intro mult_right_mono) simp_all
  moreover have "x * (1 + 1 / 2 ^ 24) \<le> hi * (1 + 1 / 2 ^ 24)"
    using assms(4) by (intro mult_right_mono) simp_all
  ultimately show ?thesis
    using rounded_normal [OF assms(1) x] assms(6,7) by linarith
qed

lemma rounded_power:
  assumes "accurate fl" and "1 / 2 ^ 125 \<le> c" and "c \<le> 2 ^ 126" and "k \<le> 3"
    and "c * (1 - 1 / 2 ^ 24) ^ k \<le> x" and "x \<le> c * (1 + 1 / 2 ^ 24) ^ k"
  shows "c * (1 - 1 / 2 ^ 24) ^ Suc k \<le> fl x \<and> fl x \<le> c * (1 + 1 / 2 ^ 24) ^ Suc k"
proof (rule rounded_between [OF assms(1) _ assms(5,6)])
  let ?L = "1 - 1 / 2 ^ 24 :: real" and ?U = "1 + 1 / 2 ^ 24 :: real"
  have "(0 :: real) < 1 / 2 ^ 125" by simp
  with assms(2) have c: "0 \<le> c" by linarith
  have "?L ^ 3 \<le> ?L ^ k"
    using assms(4) by (intro power_decreasing) simp_all
  moreover have "1 / 2 \<le> ?L ^ 3" by (simp add: power_divide)
  ultimately have L: "1 / 2 \<le> ?L ^ k" by linarith
  have "?U ^ k \<le> ?U ^ 3"
    using assms(4) by (intro power_increasing) simp_all
  moreover have "?U ^ 3 \<le> 2" by (simp add: power_divide)
  ultimately have U: "?U ^ k \<le> 2" by linarith
  have "1 / 2 ^ 125 * (1 / 2) \<le> c * ?L ^ k"
    using assms(2) L by (intro mult_mono) simp_all
  then show "1 / 2 ^ 126 \<le> c * ?L ^ k" by simp
  have "c * ?U ^ k \<le> 2 ^ 126 * 2"
    using assms(3) U c by (intro mult_mono) simp_all
  then show "c * ?U ^ k \<le> 2 ^ 127" by simp
qed simp_all

text \<open>
  What the sketch computes from 2048 counts on both channels in binary32.
\<close>

lemma readVoltage_binary32_2048:
  "fst (readVoltage (sketch_config binary32) bench_board) = 1730573 / 262144"
proof -
  have "fst (readVoltage (sketch_config binary32) bench_board)
      = binary32 (binary32 (binary32 (binary32 2048 / binary32 4095) * binary32 (33 / 10)) * 4)"
    by (simp add: readVoltage_closed sketch_config_def bench_board_def)
  then show ?thesis
    by (simp only: binary32_constants binary32_volts_2048)
qed

lemma readCurrent_binary32_2048:
  "fst (readCurrent (sketch_config binary32) bench_board) = 4678573 / 2147483648"
proof -
  have "fst (readCurrent (sketch_config binary32) bench_board)
      = \<bar>binary32 (binary32 (binary32 (binary32 (binary32 2048 / binary32 4095) * binary32 (33 / 10))
                             - binary32 (binary32 (33 / 10) / 2))
                   / binary32 (185 / 1000))\<bar>"
    by (simp add: readCurrent_closed sketch_config_def bench_board_def)
  then show ?thesis
    by (simp only: binary32_constants binary32_volts_2048 binary32_amps_2048)
qed

text \<open>
  The constants of the sketch and the conversion of 2048 counts under any accurate
  rounding, within intervals with decimal end points.
\<close>

lemma reference_voltage_bounds:
  assumes "accurate fl"
  shows "16499999 / 5000000 \<le> ADC_MAX_VOLTAGE (sketch_config fl)
     \<and> ADC_MAX_VOLTAGE (sketch_config fl) \<le> 16500001 / 5000000"
  using rounded_between [OF assms, of "33 / 10" "33 / 10" "33 / 10" "16499999 / 5000000" "16500001 / 5000000"]
  by (simp add: sketch_config_def)

lemma sensitivity_bounds:
  assumes "accurate fl"
  shows "46249997 / 250000000 \<le> CURRENT_SENSITIVITY (sketch_config fl)
     \<and> CURRENT_SENSITIVITY (sketch_config fl) \<le> 46250003 / 250000000"
  using rounded_between [OF assms, of "185 / 1000" "185 / 1000" "185 / 1000" "46249997 / 250000000" "46250003 / 250000000"]
  by (simp add: sketch_config_def)

lemma ratio_2048_bounds:
  assumes "accurate fl"
  shows "62515251 / 125000000 \<le> fl (fl 2048 / fl 4095) \<and> fl (fl 2048 / fl 4095) \<le> 500122193 / 1000000000"
proof -
  have a: "204799987 / 100000 \<le> fl 2048 \<and> fl 2048 \<le> 204800013 / 100000"
    by (rule rounded_between [OF assms, of 2048 2048 2048]) simp_all
  have b: "16379999 / 4000 \<le> fl 4095 \<and> fl 4095 \<le> 16380001 / 4000"
    by (rule rounded_between [OF assms, of 4095 4095 4095]) simp_all
  have "(204799987 / 100000) / (16380001 / 4000) \<le> fl 2048 / fl 4095"
    using a b by (intro frac_le) simp_all
  moreover have "fl 2048 / fl 4095 \<le> (204800013 / 100000) / (16379999 / 4000)"
    using a b by (intro frac_le) simp_all
  ultimately show ?thesis
    by (intro rounded_between [OF assms, of "(204799987 / 100000) / (16380001 / 4000)" _ "(204800013 / 100000) / (16379999 / 4000)"]) simp_all
qed

lemma sense_2048_bounds:
  assumes "accurate fl"
  shows "82520121 / 50000000 \<le> fl (fl (fl 2048 / fl 4095) * ADC_MAX_VOLTAGE (sketch_config fl))
     \<and> fl (fl (fl 2048 / fl 4095) * ADC_MAX_VOLTAGE (sketch_config fl)) \<le> 20630043 / 12500000"
proof -
  note q = ratio_2048_bounds [OF assms] and r = reference_voltage_bounds [OF assms]
  have "(62515251 / 125000000) * (16499999 / 5000000) \<le> fl (fl 2048 / fl 4095) * ADC_MAX_VOLTAGE (sketch_config fl)"
    using q r by (intro mult_mono) simp_all
  moreover have "fl (fl 2048 / fl 4095) * ADC_MAX_VOLTAGE (sketch_config fl) \<le> (500122193 / 1000000000) * (16500001 / 5000000)"
    using q r by (intro mult_mono) simp_all
  ultimately show ?thesis
    by (intro rounded_between [OF assms, of "(62515251 / 125000000) * (16499999 / 5000000)" _ "(500122193 / 1000000000) * (16500001 / 5000000)"]) simp_all
qed

lemma volts_2048_bounds:
  assumes "accurate fl"
  shows "20630029 / 3125000 \<le> fl (fl (fl (fl 2048 / fl 4095) * ADC_MAX_VOLTAGE (sketch_config fl)) * 4)
     \<and> fl (fl (fl (fl 2048 / fl 4095) * ADC_MAX_VOLTAGE (sketch_config fl)) * 4) \<le> 82520177 / 12500000"
proof -
  note m = sense_2048_bounds [OF assms]
  show ?thesis
    using m by (intro rounded_between [OF assms, of "(82520121 / 50000000) * 4" _ "(20630043 / 12500000) * 4"]) simp_all
qed

lemma amps_2048_bounds:
  assumes "accurate fl"
  shows "13588511 / 6250000000 \<le> fl (fl (fl (fl (fl 2048 / fl 4095) * ADC_MAX_VOLTAGE (sketch_config fl))
                        - fl (ADC_MAX_VOLTAGE (sketch_config fl) / 2))
                    / CURRENT_SENSITIVITY (sketch_config fl))
     \<and> fl (fl (fl (fl (fl 2048 / fl 4095) * ADC_MAX_VOLTAGE (sketch_config fl))
                        - fl (ADC_MAX_VOLTAGE (sketch_config fl) / 2))
                    / CURRENT_SENSITIVITY (sketch_config fl)) \<le> 8727353 / 4000000000"
proof -
  let ?m = "fl (fl (fl 2048 / fl 4095) * ADC_MAX_VOLTAGE (sketch_config fl))"
  let ?o = "fl (ADC_MAX_VOLTAGE (sketch_config fl) / 2)"
  let ?s = "CURRENT_SENSITIVITY (sketch_config fl)"
  note m = sense_2048_bounds [OF assms] and r = reference_voltage_bounds [OF assms]
    and s = sensitivity_bounds [OF assms]
  have o: "8249999 / 5000000 \<le> ?o \<and> ?o \<le> 8250001 / 5000000"
    using r by (intro rounded_between [OF assms, of "(16499999 / 5000000) / 2" _ "(16500001 / 5000000) / 2"]) simp_all
  have d: "50277497 / 125000000000 \<le> fl (?m - ?o) \<and> fl (?m - ?o) \<le> 16145601 / 40000000000"
    using m o
    by (intro rounded_between [OF assms, of "(82520121 / 50000000) - (8250001 / 5000000)" _ "(20630043 / 12500000) - (8249999 / 5000000)"]) simp_all
  have "(50277497 / 125000000000) / (46250003 / 250000000) \<le> fl (?m - ?o) / ?s"
    using d s by (intro frac_le) simp_all
  moreover have "fl (?m - ?o) / ?s \<le> (16145601 / 40000000000) / (46249997 / 250000000)"
    using d s by (intro frac_le) simp_all
  ultimately show ?thesis
    by (intro rounded_between [OF assms, of "(50277497 / 125000000000) / (46250003 / 250000000)" _ "(16145601 / 40000000000) / (46249997 / 250000000)"]) simp_all
qed

lemma resolution_bounds:
  assumes "accurate fl"
  shows "16379999 / 4000 \<le> fl 4095 \<and> fl 4095 \<le> 16380001 / 4000"
  by (rule rounded_between [OF assms, of 4095 4095 4095]) simp_all

lemma volts_scaled:
  assumes "accurate fl" and "1 \<le> n" and "n \<le> 4095"
  defines "K \<equiv> 4 * ADC_MAX_VOLTAGE (sketch_config fl) / fl 4095"
  shows "K * real_of_int n * (1 - 1 / 2 ^ 24) ^ 4
           \<le> fl (fl (fl (fl (real_of_int n) / fl 4095) * ADC_MAX_VOLTAGE (sketch_config fl)) * 4)
       \<and> fl (fl (fl (fl (real_of_int n) / fl 4095) * ADC_MAX_VOLTAGE (sketch_config fl)) * 4)
           \<le> K * real_of_int n * (1 + 1 / 2 ^ 24) ^ 4"
proof -
  let ?n = "real_of_int n" and ?A = "fl 4095" and ?R = "ADC_MAX_VOLTAGE (sketch_config fl)"
  let ?L = "1 - 1 / 2 ^ 24 :: real" and ?U = "1 + 1 / 2 ^ 24 :: real"
  note A = resolution_bounds [OF assms(1)] and R = reference_voltage_bounds [OF assms(1)]
  have A0: "0 < ?A" using A by linarith
  have R0: "0 < ?R" using R by linarith
  have n: "1 \<le> ?n" "?n \<le> 4095" using assms(2,3) by simp_all
  have c1: "1 / 2 ^ 125 \<le> ?n" "?n \<le> 2 ^ 126"
    using n by simp_all
  have q: "1 / 4096 \<le> ?n / ?A" "?n / ?A \<le> 4095 / 4094"
    using n A by (intro frac_le; simp)+
  have tiny: "(1 :: real) / 2 ^ 125 \<le> 1 / 4096" and huge: "(4095 :: real) / 4094 \<le> 2 ^ 126"
    by simp_all
  have c2: "1 / 2 ^ 125 \<le> ?n / ?A" "?n / ?A \<le> 2 ^ 126"
    using q tiny huge by linarith+
  have q0: "0 \<le> ?n / ?A" using n A0 by simp
  have R': "3 \<le> ?R" "?R \<le> 4" using R by linarith+
  define X where "X = ?n / ?A * ?R"
  have "1 / 4096 * 3 \<le> X"
    unfolding X_def using q0 by (intro mult_mono [OF q(1) R'(1)]) simp_all
  moreover have "X \<le> 4095 / 4094 * 4"
    unfolding X_def using R0 by (intro mult_mono [OF q(2) R'(2)]) simp_all
  moreover have "(1 :: real) / 2 ^ 125 \<le> 1 / 4096 * 3" "(4095 :: real) / 4094 * 4 * 4 \<le> 2 ^ 126"
    by simp_all
  ultimately have "1 / 2 ^ 125 \<le> X" "X \<le> 2 ^ 126" "1 / 2 ^ 125 \<le> X * 4" "X * 4 \<le> 2 ^ 126"
    by linarith+
  then have c4: "1 / 2 ^ 125 \<le> ?n / ?A * ?R" "?n / ?A * ?R \<le> 2 ^ 126"
    and c6: "1 / 2 ^ 125 \<le> ?n / ?A * ?R * 4" "?n / ?A * ?R * 4 \<le> 2 ^ 126"
    unfolding X_def by blast+
  have s1: "?n * ?L ^ Suc 0 \<le> fl ?n \<and> fl ?n \<le> ?n * ?U ^ Suc 0"
    by (rule rounded_power [OF assms(1) c1]) simp_all
  have s2: "?n / ?A * ?L ^ Suc 0 \<le> fl ?n / ?A \<and> fl ?n / ?A \<le> ?n / ?A * ?U ^ Suc 0"
  proof
    have "?n * ?L ^ Suc 0 / ?A \<le> fl ?n / ?A"
      using s1 A0 by (intro divide_right_mono) simp_all
    then show "?n / ?A * ?L ^ Suc 0 \<le> fl ?n / ?A" by (simp add: field_simps)
    have "fl ?n / ?A \<le> ?n * ?U ^ Suc 0 / ?A"
      using s1 A0 by (intro divide_right_mono) simp_all
    then show "fl ?n / ?A \<le> ?n / ?A * ?U ^ Suc 0" by (simp add: field_simps)
  qed
  have s3: "?n / ?A * ?L ^ Suc (Suc 0) \<le> fl (fl ?n / ?A)
      \<and> fl (fl ?n / ?A) \<le> ?n / ?A * ?U ^ Suc (Suc 0)"
    using s2 by (intro rounded_power [OF assms(1) c2]) simp_all
  have s4: "?n / ?A * ?R * ?L ^ Suc (Suc 0) \<le> fl (fl ?n / ?A) * ?R
      \<and> fl (fl ?n / ?A) * ?R \<le> ?n / ?A * ?R * ?U ^ Suc (Suc 0)"
  proof
    have "?n / ?A * ?L ^ Suc (Suc 0) * ?R \<le> fl (fl ?n / ?A) * ?R"
      using s3 R0 by (intro mult_right_mono) simp_all
    then show "?n / ?A * ?R * ?L ^ Suc (Suc 0) \<le> fl (fl ?n / ?A) * ?R"
      by (simp add: mult.assoc mult.commute mult.left_commute)
    have "fl (fl ?n / ?A) * ?R \<le> ?n / ?A * ?U ^ Suc (Suc 0) * ?R"
      using s3 R0 by (intro mult_right_mono) simp_all
    then show "fl (fl ?n / ?A) * ?R \<le> ?n / ?A * ?R * ?U ^ Suc (Suc 0)"
      by (simp add: mult.assoc mult.commute mult.left_commute)
  qed
  have s5: "?n / ?A * ?R * ?L ^ Suc (Suc (Suc 0)) \<le> fl (fl (fl ?n / ?A) * ?R)
      \<and> fl (fl (fl ?n / ?A) * ?R) \<le> ?n / ?A * ?R * ?U ^ Suc (Suc (Suc 0))"
    using s4 by (intro rounded_power [OF assms(1) c4]) simp_all
  have s6: "?n / ?A * ?R * 4 * ?L ^ Suc (Suc (Suc 0)) \<le> fl (fl (fl ?n / ?A) * ?R) * 4
      \<and> fl (fl (fl ?n / ?A) * ?R) * 4 \<le> ?n / ?A * ?R * 4 * ?U ^ Suc (Suc (Suc 0))"
    using s5 by (simp add: mult.assoc mult.commute mult.left_commute)
  have s7: "?n / ?A * ?R * 4 * ?L ^ Suc (Suc (Suc (Suc 0))) \<le> fl (fl (fl (fl ?n / ?A) * ?R) * 4)
      \<and> fl (fl (fl (fl ?n / ?A) * ?R) * 4) \<le> ?n / ?A * ?R * 4 * ?U ^ Suc (Suc (Suc (Suc 0)))"
    using s6 by (intro rounded_power [OF assms(1) c6]) simp_all
  have four: "Suc (Suc (Suc (Suc 0))) = 4" by simp
  have K: "?n / ?A * ?R * 4 = K * ?n" by (simp add: K_def)
  from s7 show ?thesis unfolding four K .
qed

lemma volts_zero:
  assumes "accurate fl"
  shows "fl (fl (fl (fl (real_of_int 0) / fl 4095) * ADC_MAX_VOLTAGE (sketch_config fl)) * 4) = 0"
  by (simp add: accurate_0 [OF assms])

lemma volts_strict:
  assumes "accurate fl" and "0 \<le> s" and "s < t" and "t \<le> 4095"
  shows "fl (fl (fl (fl (real_of_int s) / fl 4095) * ADC_MAX_VOLTAGE (sketch_config fl)) * 4)
       < fl (fl (fl (fl (real_of_int t) / fl 4095) * ADC_MAX_VOLTAGE (sketch_config fl)) * 4)"
proof -
  define K where "K = 4 * ADC_MAX_VOLTAGE (sketch_config fl) / fl 4095"
  define L :: real where "L = (1 - 1 / 2 ^ 24) ^ 4"
  define U :: real where "U = (1 + 1 / 2 ^ 24) ^ 4"
  have K: "0 < K"
    using resolution_bounds [OF assms(1)] reference_voltage_bounds [OF assms(1)]
    by (simp add: K_def)
  have num: "4094 * (U - L) < L" "0 \<le> U - L" "0 < L"
    by (simp_all add: L_def U_def power_divide)
  have t: "1 \<le> t" using assms(2,3) by simp
  note vt = volts_scaled [OF assms(1) t assms(4), folded K_def L_def U_def]
  show ?thesis
  proof (cases "s = 0")
    case True
    have "0 < K * real_of_int t * L"
      using K t num(3) by simp
    with vt show ?thesis
      unfolding True using volts_zero [OF assms(1)] by linarith
  next
    case False
    with assms(2) have s: "1 \<le> s" by simp
    have s': "s \<le> 4095" using assms(3,4) by simp
    note vs = volts_scaled [OF assms(1) s s', folded K_def L_def U_def]
    have "real_of_int s * (U - L) \<le> 4094 * (U - L)"
      using assms(3,4) num(2) by (intro mult_right_mono) simp_all
    moreover have "(real_of_int s + 1) * L \<le> real_of_int t * L"
      using assms(3) num(3) by (intro mult_right_mono) simp_all
    ultimately have "real_of_int s * U < real_of_int t * L"
      using num(1) by (simp add: algebra_simps)
    then have "K * (real_of_int s * U) < K * (real_of_int t * L)"
      using K by simp
    then have "K * real_of_int s * U < K * real_of_int t * L"
      by (simp only: mult.assoc)
    with vs vt show ?thesis by linarith
  qed
qed

subsection \<open>The template and its directives\<close>

lemma html_template_parts:
  "html_template =
     page_head @ ''%.2f'' @ page_after_voltage @ ''%.2f'' @ page_after_current @ ''%.2f''
       @ page_after_power @ ''%s'' @ page_after_class @ ''%s'' @ page_after_status @ ''%.1f''
       @ page_tail"
  by (simp add: html_template_def page_head_def page_after_voltage_def page_after_current_def
      page_after_power_def page_after_class_def page_after_status_def page_tail_def)

lemma percent_free:
  "CHR ''%'' \<notin> set page_head" "CHR ''%'' \<notin> set page_after_voltage"
  "CHR ''%'' \<notin> set page_after_current" "CHR ''%'' \<notin> set page_after_power"
  "CHR ''%'' \<notin> set page_after_class" "CHR ''%'' \<notin> set page_after_status"
  "CHR ''%'' \<notin> set page_tail"
  by (simp_all add: page_head_def page_after_voltage_def page_after_current_def
      page_after_power_def page_after_class_def page_after_status_def page_tail_def)

lemma format_plain_text:
  "CHR ''%'' \<notin> set xs \<Longrightarrow>
   format_from Plain (xs @ ys) args = map_option ((@) xs) (format_from Plain ys args)"
proof (induction xs)
  case Nil
  show ?case by (cases "format_from Plain ys args") simp_all
next
  case (Cons a xs)
  then show ?case by (cases "format_from Plain ys args") auto
qed

lemma format_float_directive:
  "format_from Plain (''%.2f'' @ ys) (ArgFloat x # args) =
     map_option ((@) (fmt_fixed 2 x)) (format_from Plain ys args)"
  "format_from Plain (''%.1f'' @ ys) (ArgFloat x # args) =
     map_option ((@) (fmt_fixed 1 x)) (format_from Plain ys args)"
  by (simp_all add: is_digit_def digit_value_def)

lemma format_string_directive:
  "format_from Plain (''%s'' @ ys) (ArgStr s # args) =
     map_option ((@) s) (format_from Plain ys args)"
  by simp

lemma format_plain_end:
  "CHR ''%'' \<notin> set xs \<Longrightarrow> format_from Plain xs args = Some xs"
  using format_plain_text [of xs "[]" args] by simp

lemma getPage_closed:
  "getPage cfg w =
     Some (page_head @ fmt_fixed 2 (currentVoltage w) @ page_after_voltage
        @ fmt_fixed 2 (currentCurrent w) @ page_after_current
        @ fmt_fixed 2 (currentPower w) @ page_after_power
        @ (if loadConnected w then ''on'' else ''off'') @ page_after_class
        @ (if loadConnected w then ''CONNECTED'' else ''DISCONNECTED (Low Power)'')
        @ page_after_status
        @ fmt_fixed 1 (MIN_POWER_TO_CONNECT_W cfg) @ page_tail)"
proof -
  note plain = format_plain_text [OF percent_free(1)] format_plain_text [OF percent_free(2)]
    format_plain_text [OF percent_free(3)] format_plain_text [OF percent_free(4)]
    format_plain_text [OF percent_free(5)] format_plain_text [OF percent_free(6)]
    format_plain_end [OF percent_free(7)]
  show ?thesis
    unfolding getPage_def String_format_def Let_def html_template_parts
    by (simp only: plain format_float_directive format_string_directive option.map)
qed

subsection \<open>Load control, acquisition and request handling in closed form\<close>

lemma level_not_LOW [simp]: "(l \<noteq> LOW) = (l = HIGH)"
  by (cases l) simp_all

lemma level_not_HIGH [simp]: "(l \<noteq> HIGH) = (l = LOW)"
  by (cases l) simp_all

lemma controlLoad_closed:
  "controlLoad cfg w =
     w\<lparr>loadConnected :=
         (if MIN_POWER_TO_CONNECT_W cfg \<le> currentPower w
          then (pinLevel w LOAD_RELAY_PIN = LOW \<or> loadConnected w)
          else (pinLevel w LOAD_RELAY_PIN = LOW \<and> loadConnected w)),
       pinLevel := (pinLevel w)(LOAD_RELAY_PIN :=
         (if MIN_POWER_TO_CONNECT_W cfg \<le> currentPower w then HIGH else LOW)),
       trace := trace w @ decision_events cfg w\<rparr>"
  by (cases "pinLevel w LOAD_RELAY_PIN")
     (auto simp: controlLoad_def decision_events_def digitalRead_def digitalWrite_def
        serial_print_def emit_def fun_upd_idem)

lemma pins_differ: "VOLTAGE_PIN \<noteq> CURRENT_PIN"
  by (simp add: VOLTAGE_PIN_def CURRENT_PIN_def)

lemma acquire_closed:
  "acquire cfg w =
     (let v = fst (readVoltage cfg w); c = fst (readCurrent cfg w)
      in w\<lparr>currentVoltage := v, currentCurrent := c, currentPower := float_of cfg (v * c),
           adc := (adc w)(VOLTAGE_PIN := (\<lambda>k. adc w VOLTAGE_PIN (Suc k)),
                          CURRENT_PIN := (\<lambda>k. adc w CURRENT_PIN (k + 20))),
           trace := trace w @ AnalogRead VOLTAGE_PIN
                      # concat (replicate 20 [AnalogRead CURRENT_PIN, Delay 1])\<rparr>)"
  using pins_differ
  by (simp add: acquire_def readVoltage_closed readCurrent_closed after_samples_def emit_def Let_def)

lemma handleRoot_closed:
  "handleRoot cfg w = Some (emit (ServerSend 200 ''text/html'' (status_page cfg w)) w)"
  by (simp add: handleRoot_def getPage_closed status_page_def)

lemma status_page_inbox [simp]: "status_page cfg (w\<lparr>inbox := q\<rparr>) = status_page cfg w"
  by (simp add: status_page_def)

lemma handleClient_closed:
  "handleClient cfg w = Some (w\<lparr>inbox := tl (inbox w), trace := trace w @ client_events cfg w\<rparr>)"
  by (simp add: handleClient_def handleRoot_closed client_events_def emit_def
      split: list.split request.split)

lemma report_closed: "report w = w\<lparr>trace := trace w @ [SerialPrint (status_line w)]\<rparr>"
  by (simp add: report_def status_line_def serial_print_def emit_def)

lemma loop_closed:
  "loop cfg w =
     Some (delay 5000 (report (controlLoad cfg (acquire cfg
        (w\<lparr>inbox := tl (inbox w), trace := trace w @ client_events cfg w\<rparr>)))))"
  by (simp add: loop_def handleClient_closed)

lemma wifi_wait_frame:
  assumes "wifi_wait w = Some y"
  shows "pinLevel y = pinLevel w \<and> loadConnected y = loadConnected w
     \<and> currentVoltage y = currentVoltage w \<and> currentCurrent y = currentCurrent w
     \<and> currentPower y = currentPower w \<and> inbox y = inbox w \<and> adc y = adc w"
proof (rule wifi_wait.raw_induct [OF _ assms])
  fix wait :: "world \<Rightarrow> world option" and w y
  assume IH: "\<And>w y. wait w = Some y \<Longrightarrow>
      pinLevel y = pinLevel w \<and> loadConnected y = loadConnected w
      \<and> currentVoltage y = currentVoltage w \<and> currentCurrent y = currentCurrent w
      \<and> currentPower y = currentPower w \<and> inbox y = inbox w \<and> adc y = adc w"
    and body: "(if fst (wifi_status w) then Some (snd (wifi_status w))
                else wait (serial_print ''.'' (delay 500 (snd (wifi_status w))))) = Some y"
  show "pinLevel y = pinLevel w \<and> loadConnected y = loadConnected w
     \<and> currentVoltage y = currentVoltage w \<and> currentCurrent y = currentCurrent w
     \<and> currentPower y = currentPower w \<and> inbox y = inbox w \<and> adc y = adc w"
  proof (cases "fst (wifi_status w)")
    case True
    with body have "y = snd (wifi_status w)" by simp
    then show ?thesis by (simp add: wifi_status_def emit_def)
  next
    case False
    with body have "wait (serial_print ''.'' (delay 500 (snd (wifi_status w)))) = Some y"
      by simp
    from IH [OF this] show ?thesis
      by (simp add: serial_print_def delay_def wifi_status_def emit_def)
  qed
qed

lemma wifi_wait_returns: "wifiConnected w k \<Longrightarrow> \<exists>y. wifi_wait w = Some y"
proof (induction k arbitrary: w)
  case 0
  then show ?case by (subst wifi_wait.simps) (simp add: wifi_status_def)
next
  case (Suc k)
  show ?case
  proof (cases "wifiConnected w 0")
    case True
    then show ?thesis by (subst wifi_wait.simps) (simp add: wifi_status_def)
  next
    case False
    let ?w' = "serial_print ''.'' (delay 500 (snd (wifi_status w)))"
    have "wifiConnected ?w' k"
      using Suc.prems by (simp add: serial_print_def delay_def wifi_status_def emit_def)
    from Suc.IH [OF this] obtain y where "wifi_wait ?w' = Some y" ..
    moreover have "wifi_wait w = wifi_wait ?w'"
      using False by (subst wifi_wait.simps) (simp add: wifi_status_def)
    ultimately show ?thesis by simp
  qed
qed

lemma setup_device_state:
  assumes "setup_device cfg (power_on board) = Some w"
  shows "pinLevel w LOAD_RELAY_PIN = LOW \<and> \<not> loadConnected w
     \<and> currentVoltage w = 0 \<and> currentCurrent w = 0 \<and> currentPower w = 0"
proof -
  let ?w4 = "emit (WiFiBegin ssid password)
      (digitalWrite LOAD_RELAY_PIN LOW
        (emit (PinModeOutput LOAD_RELAY_PIN) (emit (SerialBegin 115200) (power_on board))))"
  from assms obtain w5 where w5: "wifi_wait ?w4 = Some w5"
    by (auto simp: setup_device_def Let_def split: option.splits)
  with assms have w: "w = serial_println ''HTTP Server started.''
      (emit ServerBegin (emit (ServerOn ''/'')
        (serial_println (localIP w5)
          (serial_print ''IP Address: '' (serial_println ''\<newline>WiFi connected.'' w5)))))"
    by (simp add: setup_device_def Let_def serial_print_def serial_println_def emit_def)
  from wifi_wait_frame [OF w5] show ?thesis
    by (simp add: w serial_println_def serial_print_def emit_def digitalWrite_def power_on_def)
qed

lemma setup_device_returns:
  assumes "wifiConnected board k"
  shows "\<exists>w. setup_device cfg (power_on board) = Some w"
proof -
  let ?w4 = "emit (WiFiBegin ssid password)
      (digitalWrite LOAD_RELAY_PIN LOW
        (emit (PinModeOutput LOAD_RELAY_PIN) (emit (SerialBegin 115200) (power_on board))))"
  have "wifiConnected ?w4 k"
    using assms by (simp add: emit_def digitalWrite_def power_on_def)
  from wifi_wait_returns [OF this] obtain w5 where "wifi_wait ?w4 = Some w5" ..
  then show ?thesis by (simp add: setup_device_def Let_def)
qed

lemma controlLoad_pin:
  "pinLevel (controlLoad cfg w) LOAD_RELAY_PIN =
     (if MIN_POWER_TO_CONNECT_W cfg \<le> currentPower w then HIGH else LOW)"
  by (simp add: controlLoad_closed)

lemma controlLoad_flag:
  "loadConnected (controlLoad cfg w) =
     (if MIN_POWER_TO_CONNECT_W cfg \<le> currentPower w
      then (pinLevel w LOAD_RELAY_PIN = LOW \<or> loadConnected w)
      else (pinLevel w LOAD_RELAY_PIN = LOW \<and> loadConnected w))"
  by (simp add: controlLoad_closed)

lemma controlLoad_readings:
  "currentVoltage (controlLoad cfg w) = currentVoltage w"
  "currentCurrent (controlLoad cfg w) = currentCurrent w"
  "currentPower (controlLoad cfg w) = currentPower w"
  by (simp_all add: controlLoad_closed)

lemma controlLoad_mirror:
  assumes "loadConnected w \<longleftrightarrow> pinLevel w LOAD_RELAY_PIN = HIGH"
  shows "loadConnected (controlLoad cfg w) \<longleftrightarrow> pinLevel (controlLoad cfg w) LOAD_RELAY_PIN = HIGH"
  using assms by (cases "pinLevel w LOAD_RELAY_PIN") (simp_all add: controlLoad_pin controlLoad_flag)

lemma acquire_fields:
  "currentPower (acquire cfg w)
     = float_of cfg (currentVoltage (acquire cfg w) * currentCurrent (acquire cfg w))"
  "pinLevel (acquire cfg w) = pinLevel w"
  "loadConnected (acquire cfg w) = loadConnected w"
  by (simp_all add: acquire_closed Let_def)

lemma loop_fields:
  assumes "loop cfg w = Some w'"
  shows "currentPower w' = float_of cfg (currentVoltage w' * currentCurrent w')"
    and "pinLevel w' LOAD_RELAY_PIN = (if MIN_POWER_TO_CONNECT_W cfg \<le> currentPower w' then HIGH else LOW)"
    and "(loadConnected w \<longleftrightarrow> pinLevel w LOAD_RELAY_PIN = HIGH)
          \<Longrightarrow> (loadConnected w' \<longleftrightarrow> pinLevel w' LOAD_RELAY_PIN = HIGH)"
proof -
  let ?w1 = "w\<lparr>inbox := tl (inbox w), trace := trace w @ client_events cfg w\<rparr>"
  let ?d = "controlLoad cfg (acquire cfg ?w1)"
  from assms have w': "w' = delay 5000 (report ?d)"
    by (simp add: loop_closed)
  have same: "currentPower w' = currentPower ?d" "currentVoltage w' = currentVoltage ?d"
    "currentCurrent w' = currentCurrent ?d" "pinLevel w' = pinLevel ?d"
    "loadConnected w' = loadConnected ?d"
    by (simp_all add: w' delay_def emit_def report_closed)
  show "currentPower w' = float_of cfg (currentVoltage w' * currentCurrent w')"
    by (simp only: same controlLoad_readings acquire_fields)
  show "pinLevel w' LOAD_RELAY_PIN = (if MIN_POWER_TO_CONNECT_W cfg \<le> currentPower w' then HIGH else LOW)"
    by (simp only: same controlLoad_readings controlLoad_pin)
  assume "loadConnected w \<longleftrightarrow> pinLevel w LOAD_RELAY_PIN = HIGH"
  then have "loadConnected (acquire cfg ?w1) \<longleftrightarrow> pinLevel (acquire cfg ?w1) LOAD_RELAY_PIN = HIGH"
    by (simp add: acquire_fields)
  from controlLoad_mirror [OF this]
  show "loadConnected w' \<longleftrightarrow> pinLevel w' LOAD_RELAY_PIN = HIGH"
    by (simp only: same)
qed

lemma reachable_invariant:
  assumes "reachable cfg w"
  shows "loadConnected w \<longleftrightarrow> pinLevel w LOAD_RELAY_PIN = HIGH"
  using assms
proof (induction rule: reachable.induct)
  case (started board w)
  from setup_device_state [OF this] show ?case by simp
next
  case (tick w w')
  with loop_fields(3) [OF tick(2)] show ?case by simp
next
  case (arrival w r)
  then show ?case by simp
qed

subsection \<open>Start-up\<close>

text \<open>
  The wait for the network only appends to the trace, and it returns only if the driver
  reports a connection at some poll.
\<close>

lemma wifi_wait_trace:
  assumes "wifi_wait w = Some y"
  shows "take (length (trace w)) (trace y) = trace w"
proof (rule wifi_wait.raw_induct [OF _ assms])
  fix wait :: "world \<Rightarrow> world option" and w y
  assume IH: "\<And>w y. wait w = Some y \<Longrightarrow> take (length (trace w)) (trace y) = trace w"
    and body: "(if fst (wifi_status w) then Some (snd (wifi_status w))
                else wait (serial_print ''.'' (delay 500 (snd (wifi_status w))))) = Some y"
  show "take (length (trace w)) (trace y) = trace w"
  proof (cases "fst (wifi_status w)")
    case True
    with body have "y = snd (wifi_status w)" by simp
    then show ?thesis by (simp add: wifi_status_def emit_def)
  next
    case False
    let ?w' = "serial_print ''.'' (delay 500 (snd (wifi_status w)))"
    from False body have "wait ?w' = Some y" by simp
    from IH [OF this] have t: "take (length (trace ?w')) (trace y) = trace ?w'" .
    have tr: "trace ?w' = trace w @ [WiFiStatus, Delay 500, SerialPrint ''.'']"
      by (simp add: serial_print_def delay_def wifi_status_def emit_def)
    have "take (length (trace w)) (trace y)
        = take (length (trace w)) (take (length (trace ?w')) (trace y))"
      by (simp add: tr min_def)
    also have "\<dots> = trace w" by (simp only: t) (simp add: tr)
    finally show ?thesis .
  qed
qed

lemma setup_device_board:
  assumes "setup_device cfg (power_on board) = Some w"
  shows "adc w = adc board" and "inbox w = inbox board"
    and "take 4 (trace w) =
          [SerialBegin 115200, PinModeOutput LOAD_RELAY_PIN,
           DigitalWrite LOAD_RELAY_PIN LOW, WiFiBegin ssid password]"
proof -
  let ?w4 = "emit (WiFiBegin ssid password)
      (digitalWrite LOAD_RELAY_PIN LOW
        (emit (PinModeOutput LOAD_RELAY_PIN) (emit (SerialBegin 115200) (power_on board))))"
  from assms obtain w5 where w5: "wifi_wait ?w4 = Some w5"
    by (auto simp: setup_device_def Let_def split: option.splits)
  with assms have w: "w = serial_println ''HTTP Server started.''
      (emit ServerBegin (emit (ServerOn ''/'')
        (serial_println (localIP w5)
          (serial_print ''IP Address: '' (serial_println ''\<newline>WiFi connected.'' w5)))))"
    by (simp add: setup_device_def Let_def serial_print_def serial_println_def emit_def)
  from wifi_wait_frame [OF w5] show "adc w = adc board" and "inbox w = inbox board"
    by (simp_all add: w serial_println_def serial_print_def emit_def digitalWrite_def power_on_def)
  have t4: "trace ?w4 = [SerialBegin 115200, PinModeOutput LOAD_RELAY_PIN,
           DigitalWrite LOAD_RELAY_PIN LOW, WiFiBegin ssid password]"
    by (simp add: emit_def digitalWrite_def power_on_def)
  have len: "length (trace ?w4) = 4" by (simp add: t4)
  from wifi_wait_trace [OF w5] have t5: "take 4 (trace w5) = trace ?w4"
    by (simp only: len)
  then have "length (take 4 (trace w5)) = 4" by (simp only: len)
  then have "4 \<le> length (trace w5)" by simp
  then have "take 4 (trace w) = take 4 (trace w5)"
    by (simp add: w serial_println_def serial_print_def emit_def)
  then show "take 4 (trace w) =
          [SerialBegin 115200, PinModeOutput LOAD_RELAY_PIN,
           DigitalWrite LOAD_RELAY_PIN LOW, WiFiBegin ssid password]"
    by (simp only: t5 t4)
qed

lemma wifi_wait_connected:
  assumes "wifi_wait w = Some y"
  shows "\<exists>k. wifiConnected w k"
proof (rule wifi_wait.raw_induct [OF _ assms])
  fix wait :: "world \<Rightarrow> world option" and w y
  assume IH: "\<And>w y. wait w = Some y \<Longrightarrow> \<exists>k. wifiConnected w k"
    and body: "(if fst (wifi_status w) then Some (snd (wifi_status w))
                else wait (serial_print ''.'' (delay 500 (snd (wifi_status w))))) = Some y"
  show "\<exists>k. wifiConnected w k"
  proof (cases "fst (wifi_status w)")
    case True
    then have "wifiConnected w 0" by (simp add: wifi_status_def)
    then show ?thesis ..
  next
    case False
    with body have "wait (serial_print ''.'' (delay 500 (snd (wifi_status w)))) = Some y"
      by simp
    from IH [OF this] obtain k
      where "wifiConnected (serial_print ''.'' (delay 500 (snd (wifi_status w)))) k" ..
    then have "wifiConnected w (Suc k)"
      by (simp add: serial_print_def delay_def wifi_status_def emit_def)
    then show ?thesis ..
  qed
qed

lemma setup_device_connected:
  assumes "setup_device cfg (power_on board) = Some w"
  shows "\<exists>k. wifiConnected board k"
proof -
  let ?w4 = "emit (WiFiBegin ssid password)
      (digitalWrite LOAD_RELAY_PIN LOW
        (emit (PinModeOutput LOAD_RELAY_PIN) (emit (SerialBegin 115200) (power_on board))))"
  from assms obtain w5 where "wifi_wait ?w4 = Some w5"
    by (auto simp: setup_device_def Let_def split: option.splits)
  from wifi_wait_connected [OF this] show ?thesis
    by (simp add: emit_def digitalWrite_def power_on_def)
qed

subsection \<open>Concrete passes in binary32\<close>

lemma loop_samples:
  assumes "loop cfg w = Some w'"
  shows "currentVoltage w' = fst (readVoltage cfg w)"
    and "currentCurrent w' = fst (readCurrent cfg w)"
    and "adc w' VOLTAGE_PIN k = adc w VOLTAGE_PIN (Suc k)"
    and "adc w' CURRENT_PIN k = adc w CURRENT_PIN (k + 20)"
proof -
  let ?w1 = "w\<lparr>inbox := tl (inbox w), trace := trace w @ client_events cfg w\<rparr>"
  from assms have w': "w' = delay 5000 (report (controlLoad cfg (acquire cfg ?w1)))"
    by (simp add: loop_closed)
  show "currentVoltage w' = fst (readVoltage cfg w)"
    and "currentCurrent w' = fst (readCurrent cfg w)"
    by (simp_all add: w' delay_def emit_def report_closed controlLoad_closed acquire_closed
        Let_def readVoltage_closed readCurrent_closed)
  show "adc w' VOLTAGE_PIN k = adc w VOLTAGE_PIN (Suc k)"
    and "adc w' CURRENT_PIN k = adc w CURRENT_PIN (k + 20)"
    using pins_differ
    by (simp_all add: w' delay_def emit_def report_closed controlLoad_closed acquire_closed
        Let_def)
qed

lemma binary32_amps_0:
  "binary32 (0 - 13841203 / 8388608) = - (13841203 / 8388608)"
  "binary32 (- (13841203 / 8388608) / (3103785 / 16777216)) = - (2338041 / 262144)"
  "binary32 (1730573 / 262144 * (2338041 / 262144)) = 1929355 / 32768"
  "binary32 (1730573 / 262144 * (4678573 / 2147483648)) = 7721531 / 536870912"
     apply (rule binary32_value [of 0]; simp add: pow2_def round_half_even_def Let_def)
    apply (rule binary32_value [of 3]; simp add: pow2_def round_half_even_def Let_def)
   apply (rule binary32_value [of 5]; simp add: pow2_def round_half_even_def Let_def)
  apply (rule binary32_value [of "-7"]; simp add: pow2_def round_half_even_def Let_def)
  done

lemma readVoltage_binary32_sample:
  assumes "adc w VOLTAGE_PIN 0 = 2048"
  shows "fst (readVoltage (sketch_config binary32) w) = 1730573 / 262144"
proof -
  have "fst (readVoltage (sketch_config binary32) w)
      = binary32 (binary32 (binary32 (binary32 2048 / binary32 4095) * binary32 (33 / 10)) * 4)"
    using assms by (simp add: readVoltage_closed sketch_config_def)
  then show ?thesis
    by (simp only: binary32_constants binary32_volts_2048)
qed

lemma readCurrent_binary32_0:
  assumes "(\<Sum>k<20. adc w CURRENT_PIN k) = 0"
  shows "fst (readCurrent (sketch_config binary32) w) = 2338041 / 262144"
proof -
  have z: "binary32 0 = 0" by (simp add: binary32_def)
  have "fst (readCurrent (sketch_config binary32) w)
      = \<bar>binary32 (binary32 (binary32 (binary32 (binary32 0 / binary32 4095) * binary32 (33 / 10))
                             - binary32 (binary32 (33 / 10) / 2))
                   / binary32 (185 / 1000))\<bar>"
    using assms by (simp add: readCurrent_closed sketch_config_def)
  also have "\<dots> = \<bar>binary32 (binary32 (0 - 13841203 / 8388608) / (3103785 / 16777216))\<bar>"
    by (simp only: z binary32_constants div_0 mult_zero_left binary32_amps_2048)
  also have "\<dots> = 2338041 / 262144"
    by (simp only: binary32_amps_0)
  finally show ?thesis .
qed

lemma readCurrent_binary32_mid:
  assumes "(\<Sum>k<20. adc w CURRENT_PIN k) = 40960"
  shows "fst (readCurrent (sketch_config binary32) w) = 4678573 / 2147483648"
proof -
  have "fst (readCurrent (sketch_config binary32) w)
      = \<bar>binary32 (binary32 (binary32 (binary32 (binary32 2048 / binary32 4095) * binary32 (33 / 10))
                             - binary32 (binary32 (33 / 10) / 2))
                   / binary32 (185 / 1000))\<bar>"
    using assms by (simp add: readCurrent_closed sketch_config_def)
  then show ?thesis
    by (simp only: binary32_constants binary32_volts_2048 binary32_amps_2048)
qed

lemma fmt_values:
  "fmt_fixed 2 (1730573 / 262144) = ''6.60''"
  "fmt_fixed 2 (4678573 / 2147483648) = ''0.00''"
  "fmt_fixed 2 (7721531 / 536870912) = ''0.01''"
  by (simp_all add: fmt_fixed_def round_half_even_def zero_pad_def Let_def)

subsection \<open>The order of the effects of a pass\<close>

lemma in_order_skip:
  "\<forall>e \<in> set xs. \<not> p e \<Longrightarrow> in_order (p # ps) (xs @ ys) = in_order (p # ps) ys"
  by (induction xs) simp_all

lemma in_order_absent:
  "\<forall>e \<in> set es. \<not> p e \<Longrightarrow> \<not> in_order (p # ps) es"
  by (induction es) simp_all

lemma pass_events_closed:
  "pass_events cfg w =
     client_events cfg w
       @ (AnalogRead VOLTAGE_PIN # concat (replicate 20 [AnalogRead CURRENT_PIN, Delay 1]))
       @ decision_events cfg
           (acquire cfg (w\<lparr>inbox := tl (inbox w), trace := trace w @ client_events cfg w\<rparr>))
       @ [SerialPrint (status_line (controlLoad cfg
           (acquire cfg (w\<lparr>inbox := tl (inbox w), trace := trace w @ client_events cfg w\<rparr>))))]
       @ [Delay 5000]"
  by (simp add: pass_events_def loop_closed Let_def delay_def emit_def report_closed
      controlLoad_closed acquire_closed)

lemma client_events_quiet:
  "\<forall>e \<in> set (client_events cfg w). \<not> is_acquisition e \<and> \<not> is_decision e"
proof (cases "inbox w")
  case Nil
  then show ?thesis by (simp add: client_events_def)
next
  case (Cons r rest)
  then show ?thesis
    by (cases r) (simp_all add: client_events_def is_acquisition_def is_decision_def)
qed

lemma samples_quiet:
  "\<forall>e \<in> set (concat (replicate 20 [AnalogRead CURRENT_PIN, Delay 1])).
     \<not> is_decision e \<and> \<not> is_presentation e"
  by (simp add: is_decision_def is_presentation_def)

lemma order_after_client:
  "in_order (is_acquisition # ps) (pass_events cfg w) =
     in_order ps
       (concat (replicate 20 [AnalogRead CURRENT_PIN, Delay 1])
        @ decision_events cfg
           (acquire cfg (w\<lparr>inbox := tl (inbox w), trace := trace w @ client_events cfg w\<rparr>))
        @ [SerialPrint (status_line (controlLoad cfg
           (acquire cfg (w\<lparr>inbox := tl (inbox w), trace := trace w @ client_events cfg w\<rparr>))))]
        @ [Delay 5000])"
proof -
  have "\<forall>e \<in> set (client_events cfg w). \<not> is_acquisition e"
    using client_events_quiet by blast
  from in_order_skip [OF this] show ?thesis
    by (simp only: pass_events_closed) (simp add: is_acquisition_def)
qed

lemma order_after_samples:
  "in_order (is_decision # ps)
     (concat (replicate 20 [AnalogRead CURRENT_PIN, Delay 1]) @ decision_events cfg w1 @ es)
   = in_order ps (tl (decision_events cfg w1) @ es)"
proof -
  let ?S = "concat (replicate 20 [AnalogRead CURRENT_PIN, Delay 1])"
  have "\<forall>e \<in> set ?S. \<not> is_decision e"
    using samples_quiet by blast
  then have skip: "in_order (is_decision # ps) (?S @ decision_events cfg w1 @ es)
      = in_order (is_decision # ps) (decision_events cfg w1 @ es)"
    by (rule in_order_skip)
  have d: "decision_events cfg w1 @ es
      = DigitalRead LOAD_RELAY_PIN # (tl (decision_events cfg w1) @ es)"
    by (simp add: decision_events_def)
  have "in_order (is_decision # ps) (decision_events cfg w1 @ es)
      = in_order ps (tl (decision_events cfg w1) @ es)"
    unfolding d by (simp add: is_decision_def)
  with skip show ?thesis by (rule trans)
qed

lemma decision_tail_quiet:
  "\<forall>e \<in> set (tl (decision_events cfg w1)).
     \<not> is_presentation e \<and> \<not> is_report e \<and> \<not> is_sleep e"
  by (auto simp: decision_events_def is_presentation_def is_report_def is_sleep_def)

lemma status_line_report: "is_report (SerialPrint (status_line w))"
  by (simp add: is_report_def status_line_def)

lemma claimed_order_fails:
  "\<not> in_order [is_acquisition, is_decision, is_presentation, is_sleep] (pass_events cfg w)"
proof -
  have "\<forall>e \<in> set (tl (decision_events cfg w1) @ [SerialPrint s] @ [Delay 5000]).
      \<not> is_presentation e" for w1 s
    using decision_tail_quiet [of cfg w1] by (simp add: is_presentation_def)
  from in_order_absent [OF this] show ?thesis
    by (simp only: order_after_client order_after_samples) simp
qed

lemma actual_order:
  "in_order [is_acquisition, is_decision, is_report, is_sleep] (pass_events cfg w)"
proof -
  have "in_order [is_report, is_sleep] (tl (decision_events cfg w1) @ [SerialPrint (status_line w2)] @ [Delay 5000])"
    for w1 w2
  proof -
    have "\<forall>e \<in> set (tl (decision_events cfg w1)). \<not> is_report e"
      using decision_tail_quiet by blast
    from in_order_skip [OF this] show ?thesis
      by (simp add: status_line_report is_sleep_def)
  qed
  then show ?thesis
    by (simp only: order_after_client order_after_samples)
qed

lemma no_late_presentation:
  "filter is_presentation (drop (length (client_events cfg w)) (pass_events cfg w)) = []"
proof -
  have "filter is_presentation (decision_events cfg w1) = []" for w1
    by (simp add: decision_events_def is_presentation_def)
  moreover have "filter is_presentation
      (concat (replicate 20 [AnalogRead CURRENT_PIN, Delay 1])) = []"
    using samples_quiet by (simp only: filter_empty_conv) blast
  ultimately show ?thesis
    by (simp add: pass_events_closed is_presentation_def)
qed

lemma presentation_first:
  "in_order [is_presentation, is_acquisition, is_decision, is_report, is_sleep]
     (pass_events cfg w) = (\<exists>rest. inbox w = GET_root # rest)"
proof (cases "\<exists>rest. inbox w = GET_root # rest")
  case True
  then obtain rest where i: "inbox w = GET_root # rest" ..
  then have c: "client_events cfg w = [ServerSend 200 ''text/html'' (status_page cfg w)]"
    by (simp add: client_events_def)
  have "\<not> is_acquisition (ServerSend 200 ''text/html'' (status_page cfg w))"
    by (simp add: is_acquisition_def)
  with actual_order [of cfg w]
  have "in_order [is_acquisition, is_decision, is_report, is_sleep] (tl (pass_events cfg w))"
    by (simp add: pass_events_closed c)
  then have "in_order [is_presentation, is_acquisition, is_decision, is_report, is_sleep]
     (pass_events cfg w)"
    by (simp add: pass_events_closed c is_presentation_def)
  with True show ?thesis by simp
next
  case False
  have "\<forall>e \<in> set (client_events cfg w). \<not> is_presentation e"
  proof (cases "inbox w")
    case Nil
    then show ?thesis by (simp add: client_events_def)
  next
    case (Cons r rest)
    with False show ?thesis
      by (cases r; simp add: client_events_def is_presentation_def)
  qed
  moreover have "\<forall>e \<in> set (drop (length (client_events cfg w)) (pass_events cfg w)).
      \<not> is_presentation e"
    using no_late_presentation [of cfg w] by (simp only: filter_empty_conv)
  moreover have "pass_events cfg w
      = client_events cfg w @ drop (length (client_events cfg w)) (pass_events cfg w)"
    by (simp add: pass_events_closed)
  ultimately have "\<forall>e \<in> set (pass_events cfg w). \<not> is_presentation e"
    by (metis Un_iff set_append)
  from in_order_absent [OF this] False show ?thesis by simp
qed

lemma bench_pass:
  assumes "adc w = adc bench_board" and "pinLevel w = pinLevel bench_board"
    and "\<not> loadConnected w"
  shows "pass_events (sketch_config binary32) w =
     client_events (sketch_config binary32) w
       @ (AnalogRead VOLTAGE_PIN # concat (replicate 20 [AnalogRead CURRENT_PIN, Delay 1]))
       @ [DigitalRead LOAD_RELAY_PIN,
          SerialPrint ''V: 6.60 V | I: 0.00 A | P: 0.01 W | Load: OFF\<newline>'',
          Delay 5000]"
proof -
  let ?cfg = "sketch_config binary32"
  let ?w1 = "w\<lparr>inbox := tl (inbox w), trace := trace w @ client_events ?cfg w\<rparr>"
  have fl: "float_of ?cfg = binary32" and thr: "MIN_POWER_TO_CONNECT_W ?cfg = 10"
    by (simp_all add: sketch_config_def)
  have v: "fst (readVoltage ?cfg ?w1) = 1730573 / 262144"
    by (rule readVoltage_binary32_sample) (simp add: assms bench_board_def)
  have c: "fst (readCurrent ?cfg ?w1) = 4678573 / 2147483648"
    by (rule readCurrent_binary32_mid) (simp add: assms bench_board_def)
  have r: "currentVoltage (acquire ?cfg ?w1) = 1730573 / 262144"
    "currentCurrent (acquire ?cfg ?w1) = 4678573 / 2147483648"
    "pinLevel (acquire ?cfg ?w1) LOAD_RELAY_PIN = LOW"
    "\<not> loadConnected (acquire ?cfg ?w1)"
    by (simp_all add: acquire_closed Let_def v c assms bench_board_def)
  have p: "currentPower (acquire ?cfg ?w1) = 7721531 / 536870912"
    by (simp only: acquire_fields(1) r fl binary32_amps_0)
  note a = r p
  have d: "decision_events ?cfg (acquire ?cfg ?w1) = [DigitalRead LOAD_RELAY_PIN]"
    by (simp add: decision_events_def a thr)
  have s: "status_line (controlLoad ?cfg (acquire ?cfg ?w1))
      = ''V: 6.60 V | I: 0.00 A | P: 0.01 W | Load: OFF\<newline>''"
    by (simp add: status_line_def controlLoad_readings controlLoad_flag a thr fmt_values)
  show ?thesis
    by (simp only: pass_events_closed d s) simp
qed

subsection \<open>Current acquisition\<close>

text \<open>
  Claim C4, evaluated on the code. The claim says that 20 samples whose average is the
  configured zero-current offset (\<open>ZERO_CURRENT_OFFSET\<close>, 2048 counts) give a computed
  current of exactly 0. On the code they give about 2.2 mA, whatever the rounding:
  \<open>readCurrent\<close> subtracts half the reference voltage, 1.65 V, while 2048 counts are a
  sense voltage of \<open>2048 / 4095 * 3.3\<close> V. In binary32 the result is
  \<open>4678573 / 2147483648\<close> A.
\<close>

theorem readCurrent_at_configured_offset:
  assumes "accurate fl"
  shows "217 / 100000
           \<le> fst (readCurrent (sketch_config fl)
                    (w\<lparr>adc := (\<lambda>pin k. ZERO_CURRENT_OFFSET (sketch_config fl))\<rparr>))
       \<and> fst (readCurrent (sketch_config fl)
                (w\<lparr>adc := (\<lambda>pin k. ZERO_CURRENT_OFFSET (sketch_config fl))\<rparr>))
           \<le> 219 / 100000"
proof -
  have "fst (readCurrent (sketch_config fl)
               (w\<lparr>adc := (\<lambda>pin k. ZERO_CURRENT_OFFSET (sketch_config fl))\<rparr>))
      = \<bar>fl (fl (fl (fl (fl 2048 / fl 4095) * ADC_MAX_VOLTAGE (sketch_config fl))
                    - fl (ADC_MAX_VOLTAGE (sketch_config fl) / 2))
                / CURRENT_SENSITIVITY (sketch_config fl))\<bar>"
    by (simp add: readCurrent_closed) (simp add: sketch_config_def)
  with amps_2048_bounds [OF assms] show ?thesis
    by linarith
qed

theorem readCurrent_at_configured_offset_witness:
  "accurate binary32
   \<and> fst (readCurrent (sketch_config binary32)
            (bench_board\<lparr>adc := (\<lambda>pin k. ZERO_CURRENT_OFFSET (sketch_config binary32))\<rparr>))
       = 4678573 / 2147483648
   \<and> 217 / 100000
        \<le> fst (readCurrent (sketch_config binary32)
                 (bench_board\<lparr>adc := (\<lambda>pin k. ZERO_CURRENT_OFFSET (sketch_config binary32))\<rparr>))
   \<and> fst (readCurrent (sketch_config binary32)
            (bench_board\<lparr>adc := (\<lambda>pin k. ZERO_CURRENT_OFFSET (sketch_config binary32))\<rparr>))
        \<le> 219 / 100000"
proof -
  have "bench_board\<lparr>adc := (\<lambda>pin k. ZERO_CURRENT_OFFSET (sketch_config binary32))\<rparr> = bench_board"
    by (simp add: bench_board_def sketch_config_def)
  then have "fst (readCurrent (sketch_config binary32)
            (bench_board\<lparr>adc := (\<lambda>pin k. ZERO_CURRENT_OFFSET (sketch_config binary32))\<rparr>))
       = 4678573 / 2147483648"
    by (simp only: readCurrent_binary32_2048)
  with readCurrent_at_configured_offset [OF accurate_binary32, of bench_board] accurate_binary32
  show ?thesis by blast
qed

text \<open>
  Claim C5. Whatever value the constant \<open>ZERO_CURRENT_OFFSET\<close> has, \<open>readCurrent\<close>
  returns the same result on the same samples: the offset it subtracts is the fixed
  mid-scale value \<open>ADC_MAX_VOLTAGE / 2.0\<close>.
\<close>

theorem readCurrent_ignores_offset:
  "readCurrent (cfg\<lparr>ZERO_CURRENT_OFFSET := z1\<rparr>) w
     = readCurrent (cfg\<lparr>ZERO_CURRENT_OFFSET := z2\<rparr>) w
   \<and> fst (readCurrent (cfg\<lparr>ZERO_CURRENT_OFFSET := z1\<rparr>) w) =
       (let fl = float_of cfg;
            avgAdc = (\<Sum>k<20. adc w CURRENT_PIN k) sdiv 20;
            sensorVoltage = fl (fl (fl (real_of_int avgAdc) / fl (real_of_int (ADC_RESOLUTION cfg)))
                                  * ADC_MAX_VOLTAGE cfg);
            voltageOffset = fl (ADC_MAX_VOLTAGE cfg / 2.0)
        in \<bar>fl (fl (sensorVoltage - voltageOffset) / CURRENT_SENSITIVITY cfg)\<bar>)"
  by (simp add: readCurrent_closed Let_def)

text \<open>
  Claim C6. For every sequence of 20 raw samples, \<open>readCurrent\<close> takes their integer
  average (the sum divided by 20 as C++ divides integers), turns it into a sense voltage
  by \<open>avg / resolution * reference_voltage\<close>, subtracts the mid-scale offset (half the
  reference voltage), divides by the sensitivity and returns the absolute value; so the
  result is never negative. Every arithmetic step is a float operation.
\<close>

theorem readCurrent_magnitude:
  "fst (readCurrent cfg w) =
     (let fl = float_of cfg;
          avgAdc = (\<Sum>k<20. adc w CURRENT_PIN k) sdiv 20;
          sensorVoltage = fl (fl (fl (real_of_int avgAdc) / fl (real_of_int (ADC_RESOLUTION cfg)))
                                * ADC_MAX_VOLTAGE cfg);
          voltageOffset = fl (ADC_MAX_VOLTAGE cfg / 2.0);
          currentAmps = fl (fl (sensorVoltage - voltageOffset) / CURRENT_SENSITIVITY cfg)
      in \<bar>currentAmps\<bar>)
   \<and> 0 \<le> fst (readCurrent cfg w)"
  by (simp add: readCurrent_closed Let_def)

subsection \<open>Voltage acquisition\<close>

text \<open>
  Claim C7. \<open>readVoltage\<close> computes \<open>sample / resolution * reference_voltage *
  divider_ratio\<close> in float arithmetic. For raw samples \<open>s\<close> and \<open>t\<close> with
  \<open>0 \<le> s \<le> t \<le> resolution\<close> the voltage for \<open>s\<close> is at most the voltage for \<open>t\<close>, and
  smaller when \<open>s < t\<close> (the rounding errors are too small to merge two neighbouring
  counts); the voltage for the sample 0 is 0.
\<close>

theorem readVoltage_monotone:
  assumes "accurate fl"
    and "adc w VOLTAGE_PIN 0 = s" and "adc w' VOLTAGE_PIN 0 = t"
    and "0 \<le> s" and "s \<le> t" and "t \<le> ADC_RESOLUTION (sketch_config fl)"
  shows "fst (readVoltage (sketch_config fl) w) =
           fl (fl (fl (fl (real_of_int s) / fl (real_of_int (ADC_RESOLUTION (sketch_config fl))))
                     * ADC_MAX_VOLTAGE (sketch_config fl))
                 * VOLTAGE_SCALE_FACTOR (sketch_config fl))
     \<and> fst (readVoltage (sketch_config fl) w) \<le> fst (readVoltage (sketch_config fl) w')
     \<and> (s < t \<longrightarrow> fst (readVoltage (sketch_config fl) w) < fst (readVoltage (sketch_config fl) w'))
     \<and> (s = 0 \<longrightarrow> fst (readVoltage (sketch_config fl) w) = 0)"
proof -
  let ?V = "\<lambda>n. fl (fl (fl (fl (real_of_int n) / fl 4095) * ADC_MAX_VOLTAGE (sketch_config fl)) * 4)"
  have v: "fst (readVoltage (sketch_config fl) w) = ?V s"
    and v': "fst (readVoltage (sketch_config fl) w') = ?V t"
    using assms(2,3) by (simp_all add: readVoltage_closed) (simp_all add: sketch_config_def)
  have t: "t \<le> 4095" using assms(6) by (simp add: sketch_config_def)
  have strict: "?V s < ?V t" if "s < t"
    using volts_strict [OF assms(1,4) that t] .
  have "?V s \<le> ?V t"
  proof (cases "s < t")
    case True
    with strict show ?thesis by simp
  next
    case False
    with assms(5) have "s = t" by simp
    then show ?thesis by simp
  qed
  moreover have "?V 0 = 0"
    using volts_zero [OF assms(1)] by simp
  moreover have "fst (readVoltage (sketch_config fl) w) =
           fl (fl (fl (fl (real_of_int s) / fl (real_of_int (ADC_RESOLUTION (sketch_config fl))))
                     * ADC_MAX_VOLTAGE (sketch_config fl))
                 * VOLTAGE_SCALE_FACTOR (sketch_config fl))"
    using assms(2) by (simp add: readVoltage_closed) (simp add: sketch_config_def)
  ultimately show ?thesis
    using strict by (simp add: v v')
qed

theorem readVoltage_monotone_witness:
  "accurate binary32
   \<and> fst (readVoltage (sketch_config binary32) (bench_board\<lparr>adc := (\<lambda>pin k. 0)\<rparr>)) = 0
   \<and> fst (readVoltage (sketch_config binary32) (bench_board\<lparr>adc := (\<lambda>pin k. 0)\<rparr>))
       < fst (readVoltage (sketch_config binary32) (bench_board\<lparr>adc := (\<lambda>pin k. 4095)\<rparr>))"
proof -
  have "adc (bench_board\<lparr>adc := (\<lambda>pin k. 0)\<rparr>) VOLTAGE_PIN 0 = 0"
    and "adc (bench_board\<lparr>adc := (\<lambda>pin k. 4095)\<rparr>) VOLTAGE_PIN 0 = 4095"
    and "(0 :: int) \<le> 0" and "(0 :: int) \<le> 4095"
    and "4095 \<le> ADC_RESOLUTION (sketch_config binary32)"
    by (simp_all add: sketch_config_def)
  from readVoltage_monotone [OF accurate_binary32 this] accurate_binary32
  show ?thesis by simp
qed

subsection \<open>Load decision\<close>

text \<open>
  Claim C1. Started in the Disconnected state (relay pin low, flag false), the load decision
  applied to the power values 5, 15, 9, 20 with the threshold 10 leaves the relay OFF, ON,
  OFF, ON. In general a decision taken with the pin low connects the load exactly when
  \<open>power \<ge> threshold\<close> and otherwise changes nothing, and a decision taken with the pin
  high disconnects it exactly when \<open>power < threshold\<close> and otherwise changes nothing:
  one threshold for both directions, no hysteresis.
\<close>

theorem relay_follows_threshold:
  "(pinLevel w LOAD_RELAY_PIN = LOW \<and> \<not> loadConnected w \<longrightarrow>
      relay_run (sketch_config fl) w [5, 15, 9, 20]
        = [(LOW, False), (HIGH, True), (LOW, False), (HIGH, True)])
   \<and> (pinLevel w LOAD_RELAY_PIN = LOW \<longrightarrow>
        ((pinLevel (controlLoad cfg w) LOAD_RELAY_PIN = HIGH \<and> loadConnected (controlLoad cfg w))
           = (MIN_POWER_TO_CONNECT_W cfg \<le> currentPower w))
        \<and> (currentPower w < MIN_POWER_TO_CONNECT_W cfg \<longrightarrow>
             pinLevel (controlLoad cfg w) LOAD_RELAY_PIN = LOW
             \<and> loadConnected (controlLoad cfg w) = loadConnected w))
   \<and> (pinLevel w LOAD_RELAY_PIN = HIGH \<longrightarrow>
        ((pinLevel (controlLoad cfg w) LOAD_RELAY_PIN = LOW \<and> \<not> loadConnected (controlLoad cfg w))
           = (currentPower w < MIN_POWER_TO_CONNECT_W cfg))
        \<and> (MIN_POWER_TO_CONNECT_W cfg \<le> currentPower w \<longrightarrow>
             pinLevel (controlLoad cfg w) LOAD_RELAY_PIN = HIGH
             \<and> loadConnected (controlLoad cfg w) = loadConnected w))"
proof (intro conjI impI)
  assume "pinLevel w LOAD_RELAY_PIN = LOW \<and> \<not> loadConnected w"
  then show "relay_run (sketch_config fl) w [5, 15, 9, 20]
      = [(LOW, False), (HIGH, True), (LOW, False), (HIGH, True)]"
    by (simp add: Let_def controlLoad_pin controlLoad_flag sketch_config_def)
qed (auto simp: controlLoad_pin controlLoad_flag)

theorem relay_follows_threshold_witness:
  "relay_run (sketch_config binary32) bench_board [5, 15, 9, 20]
     = [(LOW, False), (HIGH, True), (LOW, False), (HIGH, True)]
   \<and> pinLevel (controlLoad (sketch_config binary32) (bench_board\<lparr>currentPower := 15\<rparr>)) LOAD_RELAY_PIN = HIGH
   \<and> pinLevel (controlLoad (sketch_config binary32)
        (bench_board\<lparr>currentPower := 9, loadConnected := True, pinLevel := (\<lambda>pin. HIGH)\<rparr>))
        LOAD_RELAY_PIN = LOW"
  using relay_follows_threshold [of bench_board binary32 "sketch_config binary32"]
    relay_follows_threshold
      [of "bench_board\<lparr>currentPower := 9, loadConnected := True, pinLevel := (\<lambda>pin. HIGH)\<rparr>"
          binary32 "sketch_config binary32"]
    relay_follows_threshold [of "bench_board\<lparr>currentPower := 15\<rparr>" binary32 "sketch_config binary32"]
  by (simp add: bench_board_def sketch_config_def)

text \<open>
  Claim C2. \<^verbatim>\<open>setup\<close> returns exactly when the network driver reports a connection at
  some poll. Whenever it does, whatever the levels of the pins at power-up, the state it
  returns is reachable, the relay pin is low there and \<open>loadConnected\<close> is false, and its
  first four effects are: serial port opened, relay pin made an output, relay pin driven
  low, network started; so the relay is driven low before the wait for the network begins.
  In every reachable state \<open>loadConnected\<close> is true exactly when the relay pin is high
  (the pin reads back the level last written). After every execution of the load decision
  in the loop, and still when the loop returns, the relay pin is high exactly when the
  stored power is at least \<open>MIN_POWER_TO_CONNECT_W\<close>.
\<close>

theorem relay_mirrors_threshold:
  "((\<exists>w0. setup_device cfg (power_on board) = Some w0) \<longleftrightarrow> (\<exists>k. wifiConnected board k))
   \<and> (wifiConnected board k \<longrightarrow>
      (\<exists>w0. setup_device cfg (power_on board) = Some w0
         \<and> reachable cfg w0
         \<and> pinLevel w0 LOAD_RELAY_PIN = LOW \<and> \<not> loadConnected w0
         \<and> take 4 (trace w0) =
             [SerialBegin 115200, PinModeOutput LOAD_RELAY_PIN,
              DigitalWrite LOAD_RELAY_PIN LOW, WiFiBegin ssid password]))
   \<and> (setup_device cfg (power_on board) = Some w0 \<longrightarrow>
        pinLevel w0 LOAD_RELAY_PIN = LOW \<and> \<not> loadConnected w0)
   \<and> (reachable cfg w \<longrightarrow> (loadConnected w \<longleftrightarrow> pinLevel w LOAD_RELAY_PIN = HIGH))
   \<and> (reachable cfg w \<longrightarrow>
        (\<exists>w1. handleClient cfg w = Some w1 \<and>
           (let w2 = controlLoad cfg (acquire cfg w1)
            in (loadConnected w2 \<longleftrightarrow> pinLevel w2 LOAD_RELAY_PIN = HIGH)
             \<and> (pinLevel w2 LOAD_RELAY_PIN = HIGH
                  \<longleftrightarrow> MIN_POWER_TO_CONNECT_W cfg \<le> currentPower w2))))
   \<and> (reachable cfg w \<longrightarrow>
        (\<exists>w'. loop cfg w = Some w' \<and> reachable cfg w'
           \<and> (loadConnected w' \<longleftrightarrow> pinLevel w' LOAD_RELAY_PIN = HIGH)
           \<and> (pinLevel w' LOAD_RELAY_PIN = HIGH
                \<longleftrightarrow> MIN_POWER_TO_CONNECT_W cfg \<le> currentPower w')))"
proof (intro conjI impI)
  show "(\<exists>w0. setup_device cfg (power_on board) = Some w0) \<longleftrightarrow> (\<exists>k. wifiConnected board k)"
    using setup_device_connected setup_device_returns by blast
next
  assume "wifiConnected board k"
  from setup_device_returns [OF this]
  obtain w0 where w0: "setup_device cfg (power_on board) = Some w0" ..
  then have "reachable cfg w0" by (rule reachable.started)
  moreover from setup_device_state [OF w0]
  have "pinLevel w0 LOAD_RELAY_PIN = LOW" and "\<not> loadConnected w0" by simp_all
  moreover note setup_device_board(3) [OF w0]
  ultimately show "\<exists>w0. setup_device cfg (power_on board) = Some w0
         \<and> reachable cfg w0
         \<and> pinLevel w0 LOAD_RELAY_PIN = LOW \<and> \<not> loadConnected w0
         \<and> take 4 (trace w0) =
             [SerialBegin 115200, PinModeOutput LOAD_RELAY_PIN,
              DigitalWrite LOAD_RELAY_PIN LOW, WiFiBegin ssid password]"
    using w0 by blast
next
  assume "setup_device cfg (power_on board) = Some w0"
  from setup_device_state [OF this]
  show "pinLevel w0 LOAD_RELAY_PIN = LOW" and "\<not> loadConnected w0" by simp_all
next
  assume "reachable cfg w"
  from reachable_invariant [OF this]
  show "loadConnected w \<longleftrightarrow> pinLevel w LOAD_RELAY_PIN = HIGH" by simp
next
  assume r: "reachable cfg w"
  let ?w1 = "w\<lparr>inbox := tl (inbox w), trace := trace w @ client_events cfg w\<rparr>"
  have m: "loadConnected (acquire cfg ?w1) \<longleftrightarrow> pinLevel (acquire cfg ?w1) LOAD_RELAY_PIN = HIGH"
    using reachable_invariant [OF r] by (simp add: acquire_fields)
  have "handleClient cfg w = Some ?w1" by (rule handleClient_closed)
  moreover have "let w2 = controlLoad cfg (acquire cfg ?w1)
            in (loadConnected w2 \<longleftrightarrow> pinLevel w2 LOAD_RELAY_PIN = HIGH)
             \<and> (pinLevel w2 LOAD_RELAY_PIN = HIGH
                  \<longleftrightarrow> MIN_POWER_TO_CONNECT_W cfg \<le> currentPower w2)"
    using controlLoad_mirror [OF m] by (simp add: Let_def controlLoad_pin controlLoad_readings)
  ultimately show "\<exists>w1. handleClient cfg w = Some w1 \<and>
           (let w2 = controlLoad cfg (acquire cfg w1)
            in (loadConnected w2 \<longleftrightarrow> pinLevel w2 LOAD_RELAY_PIN = HIGH)
             \<and> (pinLevel w2 LOAD_RELAY_PIN = HIGH
                  \<longleftrightarrow> MIN_POWER_TO_CONNECT_W cfg \<le> currentPower w2))"
    by blast
next
  assume r: "reachable cfg w"
  obtain w' where w': "loop cfg w = Some w'" by (simp add: loop_closed)
  have "reachable cfg w'" using r w' by (rule reachable.tick)
  moreover from reachable_invariant [OF this]
  have "loadConnected w' \<longleftrightarrow> pinLevel w' LOAD_RELAY_PIN = HIGH" by simp
  moreover have "pinLevel w' LOAD_RELAY_PIN = HIGH \<longleftrightarrow> MIN_POWER_TO_CONNECT_W cfg \<le> currentPower w'"
    using loop_fields(2) [OF w'] by simp
  ultimately show "\<exists>w'. loop cfg w = Some w' \<and> reachable cfg w'
           \<and> (loadConnected w' \<longleftrightarrow> pinLevel w' LOAD_RELAY_PIN = HIGH)
           \<and> (pinLevel w' LOAD_RELAY_PIN = HIGH
                \<longleftrightarrow> MIN_POWER_TO_CONNECT_W cfg \<le> currentPower w')"
    using w' by blast
qed

theorem relay_mirrors_threshold_witness:
  "pinLevel field_board LOAD_RELAY_PIN = HIGH
   \<and> \<not> wifiConnected field_board 0 \<and> \<not> wifiConnected field_board 1 \<and> wifiConnected field_board 2
   \<and> (\<exists>w0 w1 w2.
        setup_device (sketch_config binary32) (power_on field_board) = Some w0
      \<and> reachable (sketch_config binary32) w0
      \<and> pinLevel w0 LOAD_RELAY_PIN = LOW \<and> \<not> loadConnected w0
      \<and> take 4 (trace w0) =
          [SerialBegin 115200, PinModeOutput LOAD_RELAY_PIN,
           DigitalWrite LOAD_RELAY_PIN LOW, WiFiBegin ssid password]
      \<and> loop (sketch_config binary32) w0 = Some w1
      \<and> currentPower w1 = 1929355 / 32768
      \<and> pinLevel w1 LOAD_RELAY_PIN = HIGH \<and> loadConnected w1
      \<and> loop (sketch_config binary32) w1 = Some w2
      \<and> currentPower w2 = 7721531 / 536870912
      \<and> pinLevel w2 LOAD_RELAY_PIN = LOW \<and> \<not> loadConnected w2)"
proof -
  let ?cfg = "sketch_config binary32"
  have board: "pinLevel field_board LOAD_RELAY_PIN = HIGH"
    "\<not> wifiConnected field_board 0" "\<not> wifiConnected field_board 1" "wifiConnected field_board 2"
    by (simp_all add: field_board_def)
  have fl: "float_of ?cfg = binary32" and thr: "MIN_POWER_TO_CONNECT_W ?cfg = 10"
    by (simp_all add: sketch_config_def)
  from relay_mirrors_threshold [where board = field_board and k = 2 and cfg = ?cfg] board(4)
  obtain w0 where w0: "setup_device ?cfg (power_on field_board) = Some w0"
    and r0: "reachable ?cfg w0"
    and s0: "pinLevel w0 LOAD_RELAY_PIN = LOW" "\<not> loadConnected w0"
    and t0: "take 4 (trace w0) =
          [SerialBegin 115200, PinModeOutput LOAD_RELAY_PIN,
           DigitalWrite LOAD_RELAY_PIN LOW, WiFiBegin ssid password]"
    by blast
  have a0: "adc w0 = (\<lambda>pin k. if pin = CURRENT_PIN \<and> k < 20 then 0 else 2048)"
    using setup_device_board(1) [OF w0] by (simp add: field_board_def)
  from relay_mirrors_threshold [where cfg = ?cfg and w = w0] r0
  obtain w1 where w1: "loop ?cfg w0 = Some w1" and r1: "reachable ?cfg w1"
    and m1: "loadConnected w1 \<longleftrightarrow> pinLevel w1 LOAD_RELAY_PIN = HIGH"
    and d1: "pinLevel w1 LOAD_RELAY_PIN = HIGH \<longleftrightarrow> MIN_POWER_TO_CONNECT_W ?cfg \<le> currentPower w1"
    by blast
  have v1: "currentVoltage w1 = 1730573 / 262144"
    using pins_differ by (simp add: loop_samples(1) [OF w1] readVoltage_binary32_sample a0)
  have c1: "currentCurrent w1 = 2338041 / 262144"
    by (simp add: loop_samples(2) [OF w1] readCurrent_binary32_0 a0)
  have p1: "currentPower w1 = 1929355 / 32768"
    by (simp only: loop_fields(1) [OF w1] v1 c1 fl binary32_amps_0)
  from relay_mirrors_threshold [where cfg = ?cfg and w = w1] r1
  obtain w2 where w2: "loop ?cfg w1 = Some w2"
    and m2: "loadConnected w2 \<longleftrightarrow> pinLevel w2 LOAD_RELAY_PIN = HIGH"
    and d2: "pinLevel w2 LOAD_RELAY_PIN = HIGH \<longleftrightarrow> MIN_POWER_TO_CONNECT_W ?cfg \<le> currentPower w2"
    by blast
  have v2: "currentVoltage w2 = 1730573 / 262144"
    using pins_differ
    by (simp add: loop_samples(1) [OF w2] readVoltage_binary32_sample loop_samples(3) [OF w1] a0)
  have c2: "currentCurrent w2 = 4678573 / 2147483648"
    by (simp add: loop_samples(2) [OF w2] readCurrent_binary32_mid loop_samples(4) [OF w1] a0)
  have p2: "currentPower w2 = 7721531 / 536870912"
    by (simp only: loop_fields(1) [OF w2] v2 c2 fl binary32_amps_0)
  have h1: "pinLevel w1 LOAD_RELAY_PIN = HIGH" using d1 by (simp add: p1 thr)
  have l2: "pinLevel w2 LOAD_RELAY_PIN \<noteq> HIGH" using d2 by (simp add: p2 thr)
  then have l2': "pinLevel w2 LOAD_RELAY_PIN = LOW" by (cases "pinLevel w2 LOAD_RELAY_PIN") simp_all
  from m1 h1 have f1: "loadConnected w1" by simp
  from m2 l2 have f2: "\<not> loadConnected w2" by simp
  from board w0 r0 s0 t0 w1 p1 h1 f1 w2 p2 l2' f2 show ?thesis by blast
qed

subsection \<open>The loop\<close>

text \<open>
  Claim C3. After the acquisition step of a pass through \<^verbatim>\<open>loop\<close>, the stored voltage
  and current are the conversions of the samples read in that pass, and the stored power
  is their (float) product. The load decision and the status line read these same three
  values (\<open>controlLoad\<close> and \<open>report\<close> change none of them), and the product still holds
  in the state the pass ends in, which the next page request reads.
\<close>

theorem power_is_product_of_same_tick:
  "(let fl = float_of cfg; w1 = acquire cfg w; w2 = controlLoad cfg w1; w3 = report w2
    in currentVoltage w1 =
         fl (fl (fl (fl (real_of_int (adc w VOLTAGE_PIN 0)) / fl (real_of_int (ADC_RESOLUTION cfg)))
                   * ADC_MAX_VOLTAGE cfg) * VOLTAGE_SCALE_FACTOR cfg)
     \<and> currentCurrent w1 =
         \<bar>fl (fl (fl (fl (fl (real_of_int ((\<Sum>k<20. adc w CURRENT_PIN k) sdiv 20))
                              / fl (real_of_int (ADC_RESOLUTION cfg)))
                         * ADC_MAX_VOLTAGE cfg)
                     - fl (ADC_MAX_VOLTAGE cfg / 2.0))
                 / CURRENT_SENSITIVITY cfg)\<bar>
     \<and> currentPower w1 = float_of cfg (currentVoltage w1 * currentCurrent w1)
     \<and> (currentVoltage w2, currentCurrent w2, currentPower w2)
         = (currentVoltage w1, currentCurrent w1, currentPower w1)
     \<and> (currentVoltage w3, currentCurrent w3, currentPower w3)
         = (currentVoltage w1, currentCurrent w1, currentPower w1))
   \<and> (\<exists>w'. loop cfg w = Some w'
          \<and> currentPower w' = float_of cfg (currentVoltage w' * currentCurrent w'))"
proof
  show "let fl = float_of cfg; w1 = acquire cfg w; w2 = controlLoad cfg w1; w3 = report w2
    in currentVoltage w1 =
         fl (fl (fl (fl (real_of_int (adc w VOLTAGE_PIN 0)) / fl (real_of_int (ADC_RESOLUTION cfg)))
                   * ADC_MAX_VOLTAGE cfg) * VOLTAGE_SCALE_FACTOR cfg)
     \<and> currentCurrent w1 =
         \<bar>fl (fl (fl (fl (fl (real_of_int ((\<Sum>k<20. adc w CURRENT_PIN k) sdiv 20))
                              / fl (real_of_int (ADC_RESOLUTION cfg)))
                         * ADC_MAX_VOLTAGE cfg)
                     - fl (ADC_MAX_VOLTAGE cfg / 2.0))
                 / CURRENT_SENSITIVITY cfg)\<bar>
     \<and> currentPower w1 = float_of cfg (currentVoltage w1 * currentCurrent w1)
     \<and> (currentVoltage w2, currentCurrent w2, currentPower w2)
         = (currentVoltage w1, currentCurrent w1, currentPower w1)
     \<and> (currentVoltage w3, currentCurrent w3, currentPower w3)
         = (currentVoltage w1, currentCurrent w1, currentPower w1)"
    by (simp add: Let_def report_closed controlLoad_readings acquire_closed
        readVoltage_closed readCurrent_closed)
next
  obtain w' where w': "loop cfg w = Some w'" by (simp add: loop_closed)
  from loop_fields(1) [OF w'] w'
  show "\<exists>w'. loop cfg w = Some w'
          \<and> currentPower w' = float_of cfg (currentVoltage w' * currentCurrent w')"
    by blast
qed

text \<open>
  Claim C8, amended. With resolution 4095, reference voltage 3.3 and divider ratio 4.0, the
  raw sample 2048 converts to a voltage within 0.0001 of 6.6016 V, which is 6.602 V to
  three decimals (the claim has 6.606). With a current of 2.0 A the power is within 0.0002
  of 13.2032 W, which is 13.20 W to two decimals (the claim has 13.21). It exceeds the
  threshold of 10.0 W, and the load decision, taken with the relay pin low, switches the
  relay to Connected.
\<close>

theorem end_to_end_example:
  assumes "accurate fl" and "adc w VOLTAGE_PIN 0 = 2048" and "pinLevel w LOAD_RELAY_PIN = LOW"
  shows "let cfg = sketch_config fl;
             v = fst (readVoltage cfg w);
             w1 = w\<lparr>currentVoltage := v, currentCurrent := 2.0\<rparr>;
             w2 = w1\<lparr>currentPower := float_of cfg (currentVoltage w1 * currentCurrent w1)\<rparr>;
             w3 = controlLoad cfg w2
         in \<bar>v - 6.6016\<bar> \<le> 0.0001 \<and> \<bar>v - 6.602\<bar> \<le> 0.0005
          \<and> \<bar>currentPower w2 - 13.2032\<bar> \<le> 0.0002 \<and> \<bar>currentPower w2 - 13.20\<bar> \<le> 0.005
          \<and> MIN_POWER_TO_CONNECT_W cfg = 10.0
          \<and> MIN_POWER_TO_CONNECT_W cfg \<le> currentPower w2
          \<and> pinLevel w3 LOAD_RELAY_PIN = HIGH \<and> loadConnected w3"
proof -
  let ?v = "fl (fl (fl (fl 2048 / fl 4095) * ADC_MAX_VOLTAGE (sketch_config fl)) * 4)"
  have v: "fst (readVoltage (sketch_config fl) w) = ?v"
    using assms(2) by (simp add: readVoltage_closed) (simp add: sketch_config_def)
  note vb = volts_2048_bounds [OF assms(1)]
  have pb: "132032177 / 10000000 \<le> fl (?v * 2) \<and> fl (?v * 2) \<le> 33008073 / 2500000"
    using vb
    by (intro rounded_between [OF assms(1), of "20630029 / 3125000 * 2" _ "82520177 / 12500000 * 2"])
       simp_all
  have cfg: "float_of (sketch_config fl) = fl" "MIN_POWER_TO_CONNECT_W (sketch_config fl) = 10"
    by (simp_all add: sketch_config_def)
  have "\<bar>?v - 6.6016\<bar> \<le> 0.0001" "\<bar>?v - 6.602\<bar> \<le> 0.0005"
    "\<bar>fl (?v * 2) - 13.2032\<bar> \<le> 0.0002" "\<bar>fl (?v * 2) - 13.20\<bar> \<le> 0.005"
    "10 \<le> fl (?v * 2)"
    using vb pb by (simp_all add: abs_le_iff)
  then show ?thesis
    using assms(3) by (simp add: Let_def v cfg controlLoad_pin controlLoad_flag)
qed

theorem end_to_end_example_witness:
  "accurate binary32 \<and> adc bench_board VOLTAGE_PIN 0 = 2048
   \<and> pinLevel bench_board LOAD_RELAY_PIN = LOW
   \<and> fst (readVoltage (sketch_config binary32) bench_board) = 1730573 / 262144
   \<and> (let cfg = sketch_config binary32;
           v = fst (readVoltage cfg bench_board);
           w1 = bench_board\<lparr>currentVoltage := v, currentCurrent := 2.0\<rparr>;
           w2 = w1\<lparr>currentPower := float_of cfg (currentVoltage w1 * currentCurrent w1)\<rparr>;
           w3 = controlLoad cfg w2
       in \<bar>v - 6.6016\<bar> \<le> 0.0001 \<and> \<bar>v - 6.602\<bar> \<le> 0.0005
        \<and> \<bar>currentPower w2 - 13.2032\<bar> \<le> 0.0002 \<and> \<bar>currentPower w2 - 13.20\<bar> \<le> 0.005
        \<and> MIN_POWER_TO_CONNECT_W cfg = 10.0
        \<and> MIN_POWER_TO_CONNECT_W cfg \<le> currentPower w2
        \<and> pinLevel w3 LOAD_RELAY_PIN = HIGH \<and> loadConnected w3)"
proof -
  have sample: "adc bench_board VOLTAGE_PIN 0 = 2048"
    by (simp add: bench_board_def)
  have low: "pinLevel bench_board LOAD_RELAY_PIN = LOW"
    by (simp add: bench_board_def)
  show ?thesis
    by (intro conjI accurate_binary32 sample low readVoltage_binary32_2048
        end_to_end_example [OF accurate_binary32 sample low])
qed

text \<open>
  The figures of claim C8 as stated: whatever the rounding, the voltage for the sample 2048
  differs from 6.606 by more than 0.004, and its product with 2.0 differs from 13.21 by
  more than 0.006.
\<close>

theorem end_to_end_figures_counterexample:
  "\<not> (\<exists>fl. accurate fl
          \<and> \<bar>fst (readVoltage (sketch_config fl) bench_board) - 6.606\<bar> \<le> 0.004)
   \<and> \<not> (\<exists>fl. accurate fl
          \<and> \<bar>fl (fst (readVoltage (sketch_config fl) bench_board) * 2.0) - 13.21\<bar> \<le> 0.006)"
proof (intro conjI notI)
  assume "\<exists>fl. accurate fl
      \<and> \<bar>fst (readVoltage (sketch_config fl) bench_board) - 6.606\<bar> \<le> 0.004"
  then obtain fl where acc: "accurate fl"
    and near: "\<bar>fst (readVoltage (sketch_config fl) bench_board) - 6.606\<bar> \<le> 0.004"
    by blast
  let ?v = "fl (fl (fl (fl 2048 / fl 4095) * ADC_MAX_VOLTAGE (sketch_config fl)) * 4)"
  have v: "fst (readVoltage (sketch_config fl) bench_board) = ?v"
    by (simp add: readVoltage_closed bench_board_def) (simp add: sketch_config_def)
  from volts_2048_bounds [OF acc] near show False
    unfolding v by (simp add: abs_le_iff)
next
  assume "\<exists>fl. accurate fl
      \<and> \<bar>fl (fst (readVoltage (sketch_config fl) bench_board) * 2.0) - 13.21\<bar> \<le> 0.006"
  then obtain fl where acc: "accurate fl"
    and near: "\<bar>fl (fst (readVoltage (sketch_config fl) bench_board) * 2.0) - 13.21\<bar> \<le> 0.006"
    by blast
  let ?v = "fl (fl (fl (fl 2048 / fl 4095) * ADC_MAX_VOLTAGE (sketch_config fl)) * 4)"
  have v: "fst (readVoltage (sketch_config fl) bench_board) = ?v"
    by (simp add: readVoltage_closed bench_board_def) (simp add: sketch_config_def)
  have pb: "132032177 / 10000000 \<le> fl (?v * 2) \<and> fl (?v * 2) \<le> 33008073 / 2500000"
    using volts_2048_bounds [OF acc]
    by (intro rounded_between [OF acc, of "20630029 / 3125000 * 2" _ "82520177 / 12500000 * 2"])
       simp_all
  from pb near show False
    unfolding v by (simp add: abs_le_iff)
qed

text \<open>
  Claim C10, amended. Every pass through \<^verbatim>\<open>loop\<close> returns, and its effects come in this
  order: the handling of at most one pending request; acquisition (one conversion of the
  voltage channel, then 20 conversions of the current channel, each followed by a delay of
  1 ms); the load decision; the status line on the serial stream; the sleep of 5000 ms.
  The status page is presented only while a pending request for it is handled, at the head
  of the pass, before acquisition: it shows the values cached when the pass begins, and
  handling a request performs no conversion. No page is sent after the head of the pass,
  so the order acquisition, decision, presentation, sleep (the claim's) occurs in no pass.
\<close>

theorem loop_order:
  "\<exists>w'. loop cfg w = Some w'
     \<and> (let w0 = w\<lparr>inbox := tl (inbox w), trace := trace w @ client_events cfg w\<rparr>;
             w1 = acquire cfg w0;
             w2 = controlLoad cfg w1
         in trace w' =
              trace w @ client_events cfg w
                @ (AnalogRead VOLTAGE_PIN # concat (replicate 20 [AnalogRead CURRENT_PIN, Delay 1]))
                @ decision_events cfg w1
                @ [SerialPrint (status_line w2)]
                @ [Delay 5000])
     \<and> pass_events cfg w = drop (length (trace w)) (trace w')
     \<and> client_events cfg w =
          (case inbox w of
             [] \<Rightarrow> []
           | GET_root # rest \<Rightarrow> [ServerSend 200 ''text/html'' (status_page cfg w)]
           | Unrouted # rest \<Rightarrow> [ServerNotFound])
     \<and> getPage cfg w = Some (status_page cfg w)
     \<and> AnalogRead VOLTAGE_PIN \<notin> set (client_events cfg w)
     \<and> AnalogRead CURRENT_PIN \<notin> set (client_events cfg w)
     \<and> in_order [is_acquisition, is_decision, is_report, is_sleep] (pass_events cfg w)
     \<and> \<not> in_order [is_acquisition, is_decision, is_presentation, is_sleep] (pass_events cfg w)
     \<and> filter is_presentation (drop (length (client_events cfg w)) (pass_events cfg w)) = []
     \<and> in_order [is_presentation, is_acquisition, is_decision, is_report, is_sleep]
          (pass_events cfg w) = (\<exists>rest. inbox w = GET_root # rest)"
proof -
  let ?w' = "delay 5000 (report (controlLoad cfg (acquire cfg
        (w\<lparr>inbox := tl (inbox w), trace := trace w @ client_events cfg w\<rparr>))))"
  have l: "loop cfg w = Some ?w'" by (rule loop_closed)
  have "let w0 = w\<lparr>inbox := tl (inbox w), trace := trace w @ client_events cfg w\<rparr>;
             w1 = acquire cfg w0;
             w2 = controlLoad cfg w1
         in trace ?w' =
              trace w @ client_events cfg w
                @ (AnalogRead VOLTAGE_PIN # concat (replicate 20 [AnalogRead CURRENT_PIN, Delay 1]))
                @ decision_events cfg w1
                @ [SerialPrint (status_line w2)]
                @ [Delay 5000]"
    by (simp add: Let_def delay_def emit_def report_closed controlLoad_closed acquire_closed)
  moreover have "pass_events cfg w = drop (length (trace w)) (trace ?w')"
    by (simp add: pass_events_def l)
  moreover have "client_events cfg w =
          (case inbox w of
             [] \<Rightarrow> []
           | GET_root # rest \<Rightarrow> [ServerSend 200 ''text/html'' (status_page cfg w)]
           | Unrouted # rest \<Rightarrow> [ServerNotFound])"
    by (simp add: client_events_def)
  moreover have "getPage cfg w = Some (status_page cfg w)"
    by (simp add: getPage_closed status_page_def)
  moreover have "AnalogRead VOLTAGE_PIN \<notin> set (client_events cfg w)"
    and "AnalogRead CURRENT_PIN \<notin> set (client_events cfg w)"
    using client_events_quiet [of cfg w] by (auto simp: is_acquisition_def)
  moreover note actual_order [of cfg w] claimed_order_fails [of cfg w]
    no_late_presentation [of cfg w] presentation_first [of cfg w]
  ultimately show ?thesis
    using l by blast
qed

theorem loop_order_witness:
  "\<exists>w'. loop (sketch_config binary32) (bench_board\<lparr>inbox := [GET_root]\<rparr>) = Some w'
     \<and> trace w' =
         [ServerSend 200 ''text/html'' (status_page (sketch_config binary32) bench_board),
          AnalogRead VOLTAGE_PIN]
           @ concat (replicate 20 [AnalogRead CURRENT_PIN, Delay 1])
           @ [DigitalRead LOAD_RELAY_PIN,
              SerialPrint ''V: 6.60 V | I: 0.00 A | P: 0.01 W | Load: OFF\<newline>'',
              Delay 5000]
     \<and> in_order [is_presentation, is_acquisition, is_decision, is_report, is_sleep]
          (pass_events (sketch_config binary32) (bench_board\<lparr>inbox := [GET_root]\<rparr>))"
proof -
  let ?cfg = "sketch_config binary32" and ?w = "bench_board\<lparr>inbox := [GET_root]\<rparr>"
  from loop_order [of ?cfg ?w]
  obtain w' where l: "loop ?cfg ?w = Some w'"
    and p: "pass_events ?cfg ?w = drop (length (trace ?w)) (trace w')"
    and o: "in_order [is_presentation, is_acquisition, is_decision, is_report, is_sleep]
          (pass_events ?cfg ?w) = (\<exists>rest. inbox ?w = GET_root # rest)"
    by blast
  have "pass_events ?cfg ?w = client_events ?cfg ?w
       @ (AnalogRead VOLTAGE_PIN # concat (replicate 20 [AnalogRead CURRENT_PIN, Delay 1]))
       @ [DigitalRead LOAD_RELAY_PIN,
          SerialPrint ''V: 6.60 V | I: 0.00 A | P: 0.01 W | Load: OFF\<newline>'',
          Delay 5000]"
    by (rule bench_pass) (simp_all add: bench_board_def)
  moreover have "client_events ?cfg ?w = [ServerSend 200 ''text/html'' (status_page ?cfg bench_board)]"
    by (simp add: client_events_def)
  moreover have "trace ?w = []" by (simp add: bench_board_def)
  ultimately have "trace w' =
         [ServerSend 200 ''text/html'' (status_page ?cfg bench_board), AnalogRead VOLTAGE_PIN]
           @ concat (replicate 20 [AnalogRead CURRENT_PIN, Delay 1])
           @ [DigitalRead LOAD_RELAY_PIN,
              SerialPrint ''V: 6.60 V | I: 0.00 A | P: 0.01 W | Load: OFF\<newline>'',
              Delay 5000]"
    using p by simp
  moreover from o have "in_order [is_presentation, is_acquisition, is_decision, is_report, is_sleep]
          (pass_events ?cfg ?w)" by simp
  ultimately show ?thesis using l by blast
qed

text \<open>
  The order of claim C10 as stated, on the bench board. With a request for the page
  pending, the page is the first effect of the pass, before the first conversion; with no
  request pending, no page is sent at all. In neither pass does the sending of a page come
  between the load decision and the sleep.
\<close>

theorem presentation_order_counterexample:
  "pass_events (sketch_config binary32) (bench_board\<lparr>inbox := [GET_root]\<rparr>) =
     [ServerSend 200 ''text/html'' (status_page (sketch_config binary32) bench_board),
      AnalogRead VOLTAGE_PIN]
       @ concat (replicate 20 [AnalogRead CURRENT_PIN, Delay 1])
       @ [DigitalRead LOAD_RELAY_PIN,
          SerialPrint ''V: 6.60 V | I: 0.00 A | P: 0.01 W | Load: OFF\<newline>'',
          Delay 5000]
   \<and> \<not> in_order [is_acquisition, is_decision, is_presentation, is_sleep]
        (pass_events (sketch_config binary32) (bench_board\<lparr>inbox := [GET_root]\<rparr>))
   \<and> pass_events (sketch_config binary32) bench_board =
       AnalogRead VOLTAGE_PIN # concat (replicate 20 [AnalogRead CURRENT_PIN, Delay 1])
         @ [DigitalRead LOAD_RELAY_PIN,
            SerialPrint ''V: 6.60 V | I: 0.00 A | P: 0.01 W | Load: OFF\<newline>'',
            Delay 5000]
   \<and> \<not> in_order [is_acquisition, is_decision, is_presentation, is_sleep]
        (pass_events (sketch_config binary32) bench_board)"
proof -
  let ?cfg = "sketch_config binary32" and ?w = "bench_board\<lparr>inbox := [GET_root]\<rparr>"
  have "pass_events ?cfg ?w = client_events ?cfg ?w
       @ (AnalogRead VOLTAGE_PIN # concat (replicate 20 [AnalogRead CURRENT_PIN, Delay 1]))
       @ [DigitalRead LOAD_RELAY_PIN,
          SerialPrint ''V: 6.60 V | I: 0.00 A | P: 0.01 W | Load: OFF\<newline>'',
          Delay 5000]"
    by (rule bench_pass) (simp_all add: bench_board_def)
  moreover have "client_events ?cfg ?w = [ServerSend 200 ''text/html'' (status_page ?cfg bench_board)]"
    by (simp add: client_events_def)
  ultimately have 1: "pass_events ?cfg ?w =
     [ServerSend 200 ''text/html'' (status_page ?cfg bench_board), AnalogRead VOLTAGE_PIN]
       @ concat (replicate 20 [AnalogRead CURRENT_PIN, Delay 1])
       @ [DigitalRead LOAD_RELAY_PIN,
          SerialPrint ''V: 6.60 V | I: 0.00 A | P: 0.01 W | Load: OFF\<newline>'',
          Delay 5000]"
    by simp
  have "pass_events ?cfg bench_board = client_events ?cfg bench_board
       @ (AnalogRead VOLTAGE_PIN # concat (replicate 20 [AnalogRead CURRENT_PIN, Delay 1]))
       @ [DigitalRead LOAD_RELAY_PIN,
          SerialPrint ''V: 6.60 V | I: 0.00 A | P: 0.01 W | Load: OFF\<newline>'',
          Delay 5000]"
    by (rule bench_pass) (simp_all add: bench_board_def)
  moreover have "client_events ?cfg bench_board = []"
    by (simp add: client_events_def bench_board_def)
  ultimately have 2: "pass_events ?cfg bench_board =
       AnalogRead VOLTAGE_PIN # concat (replicate 20 [AnalogRead CURRENT_PIN, Delay 1])
         @ [DigitalRead LOAD_RELAY_PIN,
            SerialPrint ''V: 6.60 V | I: 0.00 A | P: 0.01 W | Load: OFF\<newline>'',
            Delay 5000]"
    by simp
  from 1 2 claimed_order_fails [of ?cfg ?w] claimed_order_fails [of ?cfg bench_board]
  show ?thesis by blast
qed

subsection \<open>Status page\<close>

text \<open>
  Claim C9. \<open>getPage\<close> always returns a page: the fixed text of the template with the
  cached voltage, current and power, the load status and the threshold put in. The page
  depends on nothing else in the world. Serving it (\<open>handleRoot\<close>) reads no sensor and
  changes no variable and no pin, it only sends the page; rendering again afterwards
  gives the same page.
\<close>

theorem getPage_pure:
  "getPage cfg w =
     Some (page_head @ fmt_fixed 2 (currentVoltage w) @ page_after_voltage
        @ fmt_fixed 2 (currentCurrent w) @ page_after_current
        @ fmt_fixed 2 (currentPower w) @ page_after_power
        @ (if loadConnected w then ''on'' else ''off'') @ page_after_class
        @ (if loadConnected w then ''CONNECTED'' else ''DISCONNECTED (Low Power)'')
        @ page_after_status
        @ fmt_fixed 1 (MIN_POWER_TO_CONNECT_W cfg) @ page_tail)
   \<and> getPage cfg (w\<lparr>pinLevel := p, adc := a, wifiConnected := c, localIP := ip,
                     inbox := q, trace := t\<rparr>) = getPage cfg w
   \<and> (\<exists>page. getPage cfg w = Some page
        \<and> handleRoot cfg w = Some (w\<lparr>trace := trace w @ [ServerSend 200 ''text/html'' page]\<rparr>)
        \<and> getPage cfg (w\<lparr>trace := trace w @ [ServerSend 200 ''text/html'' page]\<rparr>) = Some page)"
  by (simp add: getPage_closed handleRoot_closed status_page_def emit_def)

end
